theory Spec2Isabelle
  imports Main "HOL-Library.AList"
begin

section \<open>Python values used by the scripts\<close>

text \<open>
  Exceptions the modelled code can raise are values; a fallible computation returns
  \<open>py_error + 'a\<close> with \<open>Inl\<close> for the raised exception.
\<close>

datatype py_error = IndexError

text \<open>
  Python's \<open>str\<close> on an integer: decimal digits, most significant first, with a leading
  minus sign for a negative number.
\<close>

definition digit_char :: "nat \<Rightarrow> char" where
  "digit_char d = ''0123456789'' ! d"

function str_nat :: "nat \<Rightarrow> string" where
  "str_nat n = (if n < 10 then [digit_char n] else str_nat (n div 10) @ [digit_char (n mod 10)])"
  by pat_completeness auto
termination
  by (relation "measure id") auto

declare str_nat.simps [simp del]

definition str_int :: "int \<Rightarrow> string" where
  "str_int i = (if i < 0 then CHR ''-'' # str_nat (nat (- i)) else str_nat (nat i))"

text \<open>
  Python's \<open>int\<close> on a string of decimal digits, as the parser applies it to the
  digits a pattern group matched.
\<close>

definition digit_val :: "char \<Rightarrow> nat" where
  "digit_val c = of_char c - 48"

fun nat_of_digits :: "nat \<Rightarrow> string \<Rightarrow> nat" where
  "nat_of_digits acc [] = acc"
| "nat_of_digits acc (c # cs) = nat_of_digits (10 * acc + digit_val c) cs"

definition int_of_str :: "string \<Rightarrow> int" where
  "int_of_str s = int (nat_of_digits 0 s)"

text \<open>
  Strings are byte strings; the texts the scripts inspect are taken to be ASCII, where
  \<open>str.lower\<close> changes the letters A to Z only, a digit pattern matches the ten digits and
  \<open>str.strip\<close> removes the ASCII white space.
\<close>

definition lower_char :: "char \<Rightarrow> char" where
  "lower_char c =
     (case map_of (zip ''ABCDEFGHIJKLMNOPQRSTUVWXYZ'' ''abcdefghijklmnopqrstuvwxyz'') c of
        None \<Rightarrow> c
      | Some l \<Rightarrow> l)"

definition lower :: "string \<Rightarrow> string" where
  "lower s = map lower_char s"

text \<open>\<open>startswith s p\<close> is \<open>s.startswith(p)\<close> and \<open>contains s p\<close> is \<open>p in s\<close>.\<close>

fun startswith :: "string \<Rightarrow> string \<Rightarrow> bool" where
  "startswith s [] = True"
| "startswith [] (p # ps) = False"
| "startswith (c # cs) (p # ps) = (c = p \<and> startswith cs ps)"

fun contains :: "string \<Rightarrow> string \<Rightarrow> bool" where
  "contains [] p = (p = [])"
| "contains (c # cs) p = (startswith (c # cs) p \<or> contains cs p)"

text \<open>\<open>find_sub s p\<close> is \<open>s.find(p)\<close>: the index of the first occurrence, if there is one.\<close>

fun find_sub :: "string \<Rightarrow> string \<Rightarrow> nat option" where
  "find_sub [] p = (if p = [] then Some 0 else None)"
| "find_sub (c # cs) p =
     (if startswith (c # cs) p then Some 0 else map_option Suc (find_sub cs p))"

definition isdigit :: "char \<Rightarrow> bool" where
  "isdigit c = (c \<in> set ''0123456789'')"

definition isspace :: "char \<Rightarrow> bool" where
  "isspace c = (c \<in> set [CHR '' '', CHR 0x09, CHR ''\<newline>'', CHR 0x0B, CHR 0x0C, CHR 0x0D,
                            CHR 0x1C, CHR 0x1D, CHR 0x1E, CHR 0x1F])"

definition strip :: "string \<Rightarrow> string" where
  "strip s = rev (dropWhile isspace (rev (dropWhile isspace s)))"

text \<open>
  A Python \<open>dict\<close> keeps insertion order, and an assignment to a key that is already there
  replaces the value in place. That is \<open>AList.update\<close> on an association list;
  \<open>map_of\<close> reads a key and \<open>map fst\<close> lists the keys in iteration order.
\<close>

type_synonym ('k, 'v) dict = "('k \<times> 'v) list"

section \<open>The editor graph and the execution graph (convert-workflow.py)\<close>

text \<open>
  A widget value is a JSON scalar. The converter copies it and never inspects it.
\<close>

datatype widget_value = WStr string | WInt int | WBool bool | WNull

text \<open>
  An entry of a node's \<open>inputs\<close> list. The key \<open>link\<close> may be missing, may hold JSON
  \<open>null\<close> (an unconnected slot) or may hold a link identifier.
\<close>

datatype link_field = LinkAbsent | LinkNull | LinkId int

record input_info =
  input_name :: string
  input_link :: link_field

text \<open>
  An entry of the global link table. The converter reads positions 0, 1 and 2 of it: the
  link identifier, the source node and the source output slot.
\<close>

record link =
  link_id :: int
  link_source :: int
  link_slot :: int

text \<open>An editor node. The keys \<open>title\<close>, \<open>widgets_values\<close> and \<open>inputs\<close> are optional.\<close>

record editor_node =
  node_id :: int
  node_type :: string
  node_title :: "string option"
  widgets_values :: "widget_value list option"
  node_inputs :: "input_info list option"

text \<open>The editor graph. The keys \<open>nodes\<close> and \<open>links\<close> are optional.\<close>

record workflow =
  nodes :: "editor_node list option"
  links :: "link list option"

text \<open>
  An input of an execution node is a literal or the two-element list
  \<open>[source_node_id, source_output_index]\<close>.
\<close>

datatype input_value = Literal widget_value | Reference string int

record api_node =
  class_type :: string
  inputs :: "(string, input_value) dict"
  meta_title :: "string option"

type_synonym api_workflow = "(string, api_node) dict"

subsection \<open>The converter\<close>

text \<open>
  Lines 24 to 27: only a \<open>CLIPTextEncode\<close> node takes a widget, its first one, as the
  input \<open>text\<close>. Indexing an empty \<open>widgets_values\<close> raises \<open>IndexError\<close>.
\<close>

definition convert_widgets :: "editor_node \<Rightarrow> py_error + (string, input_value) dict" where
  "convert_widgets node =
     (case widgets_values node of
        None \<Rightarrow> Inr []
      | Some ws \<Rightarrow>
          if node_type node = ''CLIPTextEncode''
          then (case ws of [] \<Rightarrow> Inl IndexError
                | v # _ \<Rightarrow> Inr (AList.update ''text'' (Literal v) []))
          else Inr [])"

text \<open>
  Lines 39 to 44: the scan of the link table stops at the first entry whose identifier is
  the one looked for. A \<open>null\<close> link equals no identifier, so its scan changes nothing.
\<close>

fun resolve_link :: "link list \<Rightarrow> int \<Rightarrow> string \<Rightarrow> (string, input_value) dict
    \<Rightarrow> (string, input_value) dict" where
  "resolve_link [] lid name ins = ins"
| "resolve_link (l # ls) lid name ins =
     (if link_id l = lid
      then AList.update name (Reference (str_int (link_source l)) (link_slot l)) ins
      else resolve_link ls lid name ins)"

text \<open>Lines 33 to 44: the body of the loop over the node's inputs.\<close>

definition convert_input :: "workflow \<Rightarrow> input_info \<Rightarrow> (string, input_value) dict
    \<Rightarrow> (string, input_value) dict" where
  "convert_input wkf info ins =
     (case input_link info of
        LinkAbsent \<Rightarrow> ins
      | LinkNull \<Rightarrow> ins
      | LinkId lid \<Rightarrow>
          (case links wkf of
             None \<Rightarrow> ins
           | Some ls \<Rightarrow> resolve_link ls lid (input_name info) ins))"

fun convert_inputs :: "workflow \<Rightarrow> input_info list \<Rightarrow> (string, input_value) dict
    \<Rightarrow> (string, input_value) dict" where
  "convert_inputs wkf [] ins = ins"
| "convert_inputs wkf (info # infos) ins = convert_inputs wkf infos (convert_input wkf info ins)"

text \<open>Lines 11 to 44: the execution node built for one editor node.\<close>

definition convert_node :: "workflow \<Rightarrow> editor_node \<Rightarrow> py_error + api_node" where
  "convert_node wkf node =
     (case convert_widgets node of
        Inl e \<Rightarrow> Inl e
      | Inr ws \<Rightarrow>
          Inr \<lparr>class_type = node_type node,
               inputs = (case node_inputs node of
                           None \<Rightarrow> ws
                         | Some infos \<Rightarrow> convert_inputs wkf infos ws),
               meta_title = node_title node\<rparr>)"

text \<open>Lines 10 to 46: the loop over the nodes; an exception leaves the loop.\<close>

fun convert_nodes :: "workflow \<Rightarrow> editor_node list \<Rightarrow> api_workflow \<Rightarrow> py_error + api_workflow" where
  "convert_nodes wkf [] api = Inr api"
| "convert_nodes wkf (node # rest) api =
     (case convert_node wkf node of
        Inl e \<Rightarrow> Inl e
      | Inr api_node \<Rightarrow> convert_nodes wkf rest (AList.update (str_int (node_id node)) api_node api))"

definition convert_workflow_to_api :: "workflow \<Rightarrow> py_error + api_workflow" where
  "convert_workflow_to_api wkf =
     (case nodes wkf of
        None \<Rightarrow> Inr []
      | Some ns \<Rightarrow> convert_nodes wkf ns [])"

subsection \<open>The update of the positive prompt\<close>

text \<open>
  convert-workflow.py, lines 62 to 68: the loop over \<open>api_workflow.items()\<close> writes the
  test prompt into the first \<open>CLIPTextEncode\<close> node whose title, in lower case, does not
  contain \<open>negative\<close>, and leaves the loop. A node without \<open>_meta\<close> has the empty title.
\<close>

definition api_title :: "api_node \<Rightarrow> string" where
  "api_title node = lower (case meta_title node of None \<Rightarrow> [] | Some t \<Rightarrow> t)"

fun update_positive_prompt :: "api_workflow \<Rightarrow> api_workflow" where
  "update_positive_prompt [] = []"
| "update_positive_prompt ((nid, node) # rest) =
     (if class_type node = ''CLIPTextEncode''
      then (if \<not> contains (api_title node) ''negative''
            then (nid, node\<lparr>inputs :=
                    AList.update ''text'' (Literal (WStr ''a beautiful test landscape''))
                      (inputs node)\<rparr>) # rest
            else (nid, node) # update_positive_prompt rest)
      else (nid, node) # update_positive_prompt rest)"

section \<open>Prompt injection into the editor graph\<close>

definition editor_title :: "editor_node \<Rightarrow> string" where
  "editor_title node = lower (case node_title node of None \<Rightarrow> [] | Some t \<Rightarrow> t)"

text \<open>
  generate-images-working.py, lines 47 to 54: the first \<open>CLIPTextEncode\<close> node that has
  \<open>widgets_values\<close> and whose lower-case title does not contain \<open>negative\<close> gets the
  prompt as its only widget value; the loop ends there (\<open>break\<close>).
\<close>

fun inject_prompt_working :: "string \<Rightarrow> editor_node list \<Rightarrow> editor_node list" where
  "inject_prompt_working prompt_text [] = []"
| "inject_prompt_working prompt_text (node # rest) =
     (if node_type node = ''CLIPTextEncode'' \<and> widgets_values node \<noteq> None
      then (if \<not> contains (editor_title node) ''negative''
            then node\<lparr>widgets_values := Some [WStr prompt_text]\<rparr> # rest
            else node # inject_prompt_working prompt_text rest)
      else node # inject_prompt_working prompt_text rest)"

text \<open>
  generate-images-local.py, lines 49 to 54: the same loop body, but the loop has no
  \<open>break\<close> and goes on over the remaining nodes.
\<close>

fun inject_prompt_local :: "string \<Rightarrow> editor_node list \<Rightarrow> editor_node list" where
  "inject_prompt_local prompt_text [] = []"
| "inject_prompt_local prompt_text (node # rest) =
     (if node_type node = ''CLIPTextEncode'' \<and> widgets_values node \<noteq> None
      then (if \<not> contains (editor_title node) ''negative''
            then node\<lparr>widgets_values := Some [WStr prompt_text]\<rparr>
                   # inject_prompt_local prompt_text rest
            else node # inject_prompt_local prompt_text rest)
      else node # inject_prompt_local prompt_text rest)"

section \<open>The prompt parser (generate-images-working.py, generate-images-local.py)\<close>

text \<open>
  \<open>match_scene s\<close> is what the scene pattern matches when it is tried at the start of
  \<open>s\<close>: the literal heading, the longest run of digits (at least one), the shortest text
  up to an opening fence followed by a line break, and the shortest text up to a line break
  followed by a closing fence. The dot matches line breaks (\<open>re.DOTALL\<close>). The result is
  the two groups and the text left after the match.
\<close>

definition match_scene :: "string \<Rightarrow> (string \<times> string \<times> string) option" where
  "match_scene s =
     (if startswith s ''## Scene ''
      then (let t = drop 9 s; ds = takeWhile isdigit t; u = dropWhile isdigit t
            in if ds = [] then None
               else (case find_sub u ''```\<newline>'' of
                       None \<Rightarrow> None
                     | Some i \<Rightarrow>
                         (let v = drop (i + 4) u
                          in (case find_sub v ''\<newline>```'' of
                                None \<Rightarrow> None
                              | Some j \<Rightarrow> Some (ds, take j v, drop (j + 4) v)))))
      else None)"

text \<open>
  \<open>re.findall\<close>: the matches from left to right, each search starting where the
  match before it ended.
\<close>

function findall_scenes :: "string \<Rightarrow> (string \<times> string) list" where
  "findall_scenes [] = []"
| "findall_scenes (c # cs) =
     (case match_scene (c # cs) of
        None \<Rightarrow> findall_scenes cs
      | Some (ds, p, rest) \<Rightarrow> (ds, p) # findall_scenes rest)"
  by pat_completeness auto
termination
proof (relation "measure length")
  show "wf (measure length)" by simp
next
  fix c cs
  show "(cs, c # cs) \<in> measure length" by simp
next
  fix c :: char and cs x2 ds y p rest
  assume m: "match_scene (c # cs) = Some x2" and x2: "(ds, y) = x2" and y: "(p, rest) = y"
  from m x2 y obtain v j where "rest = drop (j + 4) v" "length v \<le> length (c # cs)"
  proof -
    assume r: "\<And>j v. rest = drop (j + 4) v \<Longrightarrow> length v \<le> length (c # cs) \<Longrightarrow> thesis"
    let ?t = "drop 9 (c # cs)"
    let ?u = "dropWhile isdigit ?t"
    from m x2 y obtain i where i: "find_sub ?u ''```\<newline>'' = Some i"
      by (auto simp: match_scene_def Let_def split: if_splits option.splits)
    let ?v = "drop (i + 4) ?u"
    from m x2 y i obtain j where j: "rest = drop (j + 4) ?v"
      by (auto simp: match_scene_def Let_def split: if_splits option.splits)
    have "length ?u \<le> length ?t" by (rule length_dropWhile_le)
    then have "length ?v \<le> length (c # cs)" by simp
    with j show thesis by (rule r)
  qed
  then show "(rest, c # cs) \<in> measure length" by auto
qed

text \<open>The episode pattern tried at the start of \<open>s\<close>: its group.\<close>

definition match_episode :: "string \<Rightarrow> (string \<times> string) option" where
  "match_episode s =
     (if startswith s ''# Episode ''
      then (let t = drop 10 s; ds = takeWhile isdigit t; u = dropWhile isdigit t
            in if ds \<noteq> [] \<and> startswith u '' B-roll Prompts''
               then Some (ds, drop 15 u) else None)
      else None)"

function findall_episodes :: "string \<Rightarrow> string list" where
  "findall_episodes [] = []"
| "findall_episodes (c # cs) =
     (case match_episode (c # cs) of
        None \<Rightarrow> findall_episodes cs
      | Some (ds, rest) \<Rightarrow> ds # findall_episodes rest)"
  by pat_completeness auto
termination
proof (relation "measure length")
  show "wf (measure length)" by simp
next
  fix c cs
  show "(cs, c # cs) \<in> measure length" by simp
next
  fix c :: char and cs x2 ds rest
  assume m: "match_episode (c # cs) = Some x2" and x2: "(ds, rest) = x2"
  let ?t = "drop 10 (c # cs)"
  from m x2 have "rest = drop 15 (dropWhile isdigit ?t)"
    by (auto simp: match_episode_def Let_def split: if_splits)
  moreover have "length (dropWhile isdigit ?t) \<le> length ?t" by (rule length_dropWhile_le)
  ultimately show "(rest, c # cs) \<in> measure length" by auto
qed

record prompt_record =
  episode :: int
  scene :: int
  prompt :: string

text \<open>
  \<open>parse_broll_prompts\<close>, on the content of the file. Inside the loop the episode pattern
  is searched in the whole content and the last match is taken, \<open>"1"\<close> when there is none.
\<close>

definition parse_broll_prompts :: "string \<Rightarrow> prompt_record list" where
  "parse_broll_prompts content =
     map (\<lambda>(scene_num, prompt_text).
            let episode_matches = findall_episodes content;
                episode_num = (if episode_matches \<noteq> [] then last episode_matches else ''1'')
            in \<lparr>episode = int_of_str episode_num,
                scene = int_of_str scene_num,
                prompt = strip prompt_text\<rparr>)
         (findall_scenes content)"

section \<open>Submission and polling (generate-images-working.py, \<open>generate_image\<close>)\<close>

text \<open>
  What the function does besides computing is passed in as an environment: reading the
  workflow file, the answer to the POST, the answer to the i-th GET of the history, and
  the file system. Each of these calls can raise; the \<open>except\<close> clause of the function
  prints the exception and returns \<open>False\<close>.
\<close>

datatype 'a attempt = Raised string | Returned 'a

text \<open>
  The answer to \<open>POST /prompt\<close>: status, body, and what \<open>response.json().get('prompt_id')\<close>
  gives for the body (\<open>None\<close> when the key is missing).
\<close>

record submit_response =
  status_code :: int
  response_text :: string
  json_prompt_id :: "string option attempt"

text \<open>
  The answer to \<open>GET /history/<prompt_id>\<close>: status and the parsed body, a dict from prompt
  ids to entries. An entry may have \<open>outputs\<close>, a dict from node ids to outputs; an
  output may have \<open>images\<close>, given here by their file names.
\<close>

record history_entry =
  outputs :: "(string, string list option) dict option"

record history_response =
  history_status :: int
  history_json :: "(string, history_entry) dict attempt"

record environment =
  load_workflow :: "workflow attempt"
  post_prompt :: "workflow \<Rightarrow> submit_response attempt"
  get_history :: "nat \<Rightarrow> string option \<Rightarrow> history_response attempt"
  path_exists :: "string \<Rightarrow> bool"
  copy2 :: "string \<Rightarrow> unit attempt"

text \<open>The lines the function prints, with the values formatted into them.\<close>

datatype message =
    UpdatedPrompt string
  | Submitting
  | Submitted "string option"
  | GenerationComplete
  | Generated
  | Timeout
  | FailedToSubmit int string
  | ErrorGenerating string

text \<open>
  What a call is observed to do: the value it returns, the lines it prints, the number of
  history requests it makes and the image file it copies.
\<close>

record outcome =
  returned :: bool
  printed :: "message list"
  polls :: nat
  copied :: "string option"

definition timeout_outcome :: "message list \<Rightarrow> nat \<Rightarrow> outcome" where
  "timeout_outcome out k = \<lparr>returned = False, printed = out @ [Timeout], polls = k, copied = None\<rparr>"

definition error_outcome :: "string \<Rightarrow> message list \<Rightarrow> nat \<Rightarrow> outcome" where
  "error_outcome e out k =
     \<lparr>returned = False, printed = out @ [ErrorGenerating e], polls = k, copied = None\<rparr>"

text \<open>\<open>prompt_id in history\<close> and \<open>history[prompt_id]\<close>; the keys of a JSON object are strings.\<close>

definition lookup_history :: "string option \<Rightarrow> (string, history_entry) dict \<Rightarrow> history_entry option" where
  "lookup_history pid history = (case pid of None \<Rightarrow> None | Some p \<Rightarrow> map_of history p)"

text \<open>\<open>history[prompt_id].get('outputs', {})\<close>\<close>

definition outputs_of :: "history_entry \<Rightarrow> (string, string list option) dict" where
  "outputs_of entry = (case outputs entry of None \<Rightarrow> [] | Some outs \<Rightarrow> outs)"

text \<open>
  Lines 78 to 83: the first image, over the outputs in order and the images of each in
  order, whose file exists in the output directory of the service.
\<close>

definition first_existing :: "environment \<Rightarrow> (string, string list option) dict \<Rightarrow> string option" where
  "first_existing env outs =
     find (path_exists env)
       (concat (map (\<lambda>(nid, images). case images of None \<Rightarrow> [] | Some fs \<Rightarrow> fs) outs))"

text \<open>
  Lines 69 to 92: \<open>poll_loop env pid i n out\<close> runs the \<open>n\<close> iterations that are left after
  \<open>i\<close> requests, \<open>out\<close> being what was printed so far. Non-empty outputs end the loop: with
  a copy and \<open>True\<close> when an image file exists, and otherwise through \<open>break\<close> to the
  same two lines as an exhausted loop.
\<close>

fun poll_loop :: "environment \<Rightarrow> string option \<Rightarrow> nat \<Rightarrow> nat \<Rightarrow> message list \<Rightarrow> outcome" where
  "poll_loop env pid i 0 out = timeout_outcome out i"
| "poll_loop env pid i (Suc n) out =
     (case get_history env i pid of
        Raised e \<Rightarrow> error_outcome e out (Suc i)
      | Returned r \<Rightarrow>
          if history_status r = 200
          then (case history_json r of
                  Raised e \<Rightarrow> error_outcome e out (Suc i)
                | Returned history \<Rightarrow>
                    (case lookup_history pid history of
                       None \<Rightarrow> poll_loop env pid (Suc i) n out
                     | Some entry \<Rightarrow>
                         if outputs_of entry \<noteq> []
                         then (case first_existing env (outputs_of entry) of
                                 None \<Rightarrow> timeout_outcome (out @ [GenerationComplete]) (Suc i)
                               | Some f \<Rightarrow>
                                   (case copy2 env f of
                                      Raised e \<Rightarrow>
                                        error_outcome e (out @ [GenerationComplete]) (Suc i)
                                    | Returned u \<Rightarrow>
                                        \<lparr>returned = True,
                                         printed = out @ [GenerationComplete, Generated],
                                         polls = Suc i,
                                         copied = Some f\<rparr>))
                         else poll_loop env pid (Suc i) n out))
          else poll_loop env pid (Suc i) n out)"

text \<open>Lines 46 to 54: the injection, and the line it prints for the node it updates.\<close>

definition inject_workflow :: "string \<Rightarrow> workflow \<Rightarrow> workflow" where
  "inject_workflow prompt_text wkf =
     (case nodes wkf of
        None \<Rightarrow> wkf
      | Some ns \<Rightarrow> wkf\<lparr>nodes := Some (inject_prompt_working prompt_text ns)\<rparr>)"

definition inject_messages :: "workflow \<Rightarrow> message list" where
  "inject_messages wkf =
     (case nodes wkf of
        None \<Rightarrow> []
      | Some ns \<Rightarrow>
          (case find (\<lambda>node. node_type node = ''CLIPTextEncode'' \<and> widgets_values node \<noteq> None
                              \<and> \<not> contains (editor_title node) ''negative'') ns of
             None \<Rightarrow> []
           | Some node \<Rightarrow> [UpdatedPrompt (editor_title node)]))"

text \<open>Lines 40 to 100; the poll budget is the constant 60 of line 69.\<close>

definition generate_image :: "environment \<Rightarrow> string \<Rightarrow> outcome" where
  "generate_image env prompt_text =
     (case load_workflow env of
        Raised e \<Rightarrow> error_outcome e [] 0
      | Returned wkf \<Rightarrow>
          (let out = inject_messages wkf @ [Submitting]
           in (case post_prompt env (inject_workflow prompt_text wkf) of
                 Raised e \<Rightarrow> error_outcome e out 0
               | Returned response \<Rightarrow>
                   if status_code response = 200
                   then (case json_prompt_id response of
                           Raised e \<Rightarrow> error_outcome e out 0
                         | Returned pid \<Rightarrow> poll_loop env pid 0 60 (out @ [Submitted pid]))
                   else \<lparr>returned = False,
                         printed = out @ [FailedToSubmit (status_code response)
                                             (response_text response)],
                         polls = 0,
                         copied = None\<rparr>)))"

text \<open>
  A history answer that does not report non-empty outputs for the job: the status is not
  200, or the body parses and has no entry for the job or an entry with empty outputs.
\<close>

definition no_outputs :: "string option \<Rightarrow> history_response \<Rightarrow> bool" where
  "no_outputs pid r =
     (history_status r \<noteq> 200 \<or>
      (case history_json r of
         Raised e \<Rightarrow> False
       | Returned history \<Rightarrow>
           (case lookup_history pid history of
              None \<Rightarrow> True
            | Some entry \<Rightarrow> outputs_of entry = [])))"

section \<open>Predicates on editor graphs used in the statements\<close>

definition workflow_nodes :: "workflow \<Rightarrow> editor_node list" where
  "workflow_nodes wkf = (case nodes wkf of None \<Rightarrow> [] | Some ns \<Rightarrow> ns)"

definition workflow_links :: "workflow \<Rightarrow> link list" where
  "workflow_links wkf = (case links wkf of None \<Rightarrow> [] | Some ls \<Rightarrow> ls)"

text \<open>The input carries a link identifier that some entry of the link table has.\<close>

definition link_resolves :: "workflow \<Rightarrow> input_info \<Rightarrow> bool" where
  "link_resolves wkf info =
     (case input_link info of
        LinkId lid \<Rightarrow> find (\<lambda>l. link_id l = lid) (workflow_links wkf) \<noteq> None
      | _ \<Rightarrow> False)"

text \<open>Every entry of the link table names a source node that is a node of the graph.\<close>

definition link_sources_present :: "workflow \<Rightarrow> bool" where
  "link_sources_present wkf =
     list_all (\<lambda>l. link_source l \<in> set (map node_id (workflow_nodes wkf))) (workflow_links wkf)"

text \<open>
  Some \<open>CLIPTextEncode\<close> node has an empty \<open>widgets_values\<close> list, the one input on
  which line 27 raises.
\<close>

definition empty_text_widgets :: "workflow \<Rightarrow> bool" where
  "empty_text_widgets wkf =
     list_ex (\<lambda>n. node_type n = ''CLIPTextEncode'' \<and> widgets_values n = Some [])
       (workflow_nodes wkf)"

text \<open>The inputs of a node, none when the key is missing.\<close>

definition node_input_list :: "editor_node \<Rightarrow> input_info list" where
  "node_input_list node = (case node_inputs node of None \<Rightarrow> [] | Some infos \<Rightarrow> infos)"

text \<open>
  An invariant of the conversion of a node: every reference in the inputs collected so
  far was made from an entry of the link table.
\<close>

definition refs_from_links :: "workflow \<Rightarrow> (string, input_value) dict \<Rightarrow> bool" where
  "refs_from_links wkf ins =
     (\<forall>name s j. (name, Reference s j) \<in> set ins \<longrightarrow>
        (\<exists>l \<in> set (workflow_links wkf). s = str_int (link_source l)))"

section \<open>Example graphs\<close>

text \<open>
  A graph of two nodes: a loader, and a text-encoding node with the widget value
  \<open>hello\<close> whose input \<open>clip\<close> is fed by link 7 from output 0 of the loader.
\<close>

definition loader_node :: editor_node where
  "loader_node = \<lparr>node_id = 12, node_type = ''CheckpointLoaderSimple'', node_title = None,
                   widgets_values = None, node_inputs = None\<rparr>"

definition encoder_node :: editor_node where
  "encoder_node = \<lparr>node_id = 6, node_type = ''CLIPTextEncode'',
                    node_title = Some ''CLIP Text Encode (Positive)'',
                    widgets_values = Some [WStr ''hello''],
                    node_inputs = Some [\<lparr>input_name = ''clip'', input_link = LinkId 7\<rparr>]\<rparr>"

definition example_graph :: workflow where
  "example_graph = \<lparr>nodes = Some [loader_node, encoder_node],
                     links = Some [\<lparr>link_id = 7, link_source = 12, link_slot = 0\<rparr>]\<rparr>"

text \<open>The same graph with a second entry for link 7 in the link table.\<close>

definition duplicate_links_graph :: workflow where
  "duplicate_links_graph =
     \<lparr>nodes = Some [loader_node, encoder_node],
      links = Some [\<lparr>link_id = 7, link_source = 12, link_slot = 0\<rparr>,
                    \<lparr>link_id = 7, link_source = 3, link_slot = 1\<rparr>]\<rparr>"

text \<open>
  Text-encoding nodes whose widget has been turned into an input: the input \<open>text\<close>
  carries link 7, or link 99, which is in no entry of the link table.
\<close>

definition text_linked_node :: editor_node where
  "text_linked_node = \<lparr>node_id = 6, node_type = ''CLIPTextEncode'', node_title = None,
                        widgets_values = Some [WStr ''hello''],
                        node_inputs = Some [\<lparr>input_name = ''text'', input_link = LinkId 7\<rparr>]\<rparr>"

definition text_dangling_node :: editor_node where
  "text_dangling_node = \<lparr>node_id = 6, node_type = ''CLIPTextEncode'', node_title = None,
                          widgets_values = Some [WStr ''hello''],
                          node_inputs = Some [\<lparr>input_name = ''text'', input_link = LinkId 99\<rparr>]\<rparr>"

definition dangling_graph :: workflow where
  "dangling_graph = \<lparr>nodes = Some [loader_node, text_dangling_node],
                      links = Some [\<lparr>link_id = 7, link_source = 12, link_slot = 0\<rparr>]\<rparr>"

text \<open>The execution graph of \<open>example_graph\<close>.\<close>

definition encoder_api_node :: api_node where
  "encoder_api_node =
     \<lparr>class_type = ''CLIPTextEncode'',
      inputs = [(''text'', Literal (WStr ''hello'')), (''clip'', Reference ''12'' 0)],
      meta_title = Some ''CLIP Text Encode (Positive)''\<rparr>"

definition example_api :: api_workflow where
  "example_api =
     [(''12'', \<lparr>class_type = ''CheckpointLoaderSimple'', inputs = [], meta_title = None\<rparr>),
      (''6'', encoder_api_node)]"

text \<open>A link table entry whose source node 12 is not a node of the graph.\<close>

definition orphan_link_graph :: workflow where
  "orphan_link_graph = \<lparr>nodes = Some [encoder_node],
                         links = Some [\<lparr>link_id = 7, link_source = 12, link_slot = 0\<rparr>]\<rparr>"

text \<open>An execution node with a negative title.\<close>

definition negative_api_node :: api_node where
  "negative_api_node = \<lparr>class_type = ''CLIPTextEncode'',
                         inputs = [(''text'', Literal (WStr ''blurry''))],
                         meta_title = Some ''CLIP Text Encode (Negative)''\<rparr>"

text \<open>A graph with distinct node ids whose text-encoding node has an empty widget list.\<close>

definition empty_widgets_graph :: workflow where
  "empty_widgets_graph =
     \<lparr>nodes = Some [loader_node,
                    \<lparr>node_id = 6, node_type = ''CLIPTextEncode'', node_title = None,
                     widgets_values = Some [], node_inputs = None\<rparr>],
      links = None\<rparr>"

text \<open>
  The text-encoding node with two inputs of the name \<open>clip\<close>, the first carrying link 7
  from node 12 and the second link 8 from node 5.
\<close>

definition repeated_name_node :: editor_node where
  "repeated_name_node =
     encoder_node\<lparr>node_inputs := Some [\<lparr>input_name = ''clip'', input_link = LinkId 7\<rparr>,
                                        \<lparr>input_name = ''clip'', input_link = LinkId 8\<rparr>]\<rparr>"

definition repeated_name_graph :: workflow where
  "repeated_name_graph =
     \<lparr>nodes = Some [loader_node, repeated_name_node],
      links = Some [\<lparr>link_id = 7, link_source = 12, link_slot = 0\<rparr>,
                    \<lparr>link_id = 8, link_source = 5, link_slot = 1\<rparr>]\<rparr>"

text \<open>A graph in which a later node repeats the id 6 of the text-encoding node.\<close>

definition repeated_id_graph :: workflow where
  "repeated_id_graph =
     \<lparr>nodes = Some [encoder_node,
                    \<lparr>node_id = 6, node_type = ''VAEDecode'', node_title = None,
                     widgets_values = None, node_inputs = None\<rparr>],
      links = Some [\<lparr>link_id = 7, link_source = 12, link_slot = 0\<rparr>]\<rparr>"


text \<open>
  Inputs whose link identifier 99 is in no entry of the link table, and the example graph
  with such an input added to its text-encoding node.
\<close>

definition dangling_input :: input_info where
  "dangling_input = \<lparr>input_name = ''text'', input_link = LinkId 99\<rparr>"

definition extra_input :: input_info where
  "extra_input = \<lparr>input_name = ''vae'', input_link = LinkId 99\<rparr>"

definition encoder_node_extra :: editor_node where
  "encoder_node_extra =
     encoder_node\<lparr>node_inputs := Some [\<lparr>input_name = ''clip'', input_link = LinkId 7\<rparr>, extra_input]\<rparr>"

definition extra_graph :: workflow where
  "extra_graph = \<lparr>nodes = Some [loader_node, encoder_node_extra],
                   links = Some [\<lparr>link_id = 7, link_source = 12, link_slot = 0\<rparr>]\<rparr>"

section \<open>Predicates and examples for the prompt injection and the parser\<close>

text \<open>The node the loop of convert-workflow.py looks for.\<close>

definition positive_text_node :: "api_node \<Rightarrow> bool" where
  "positive_text_node node =
     (class_type node = ''CLIPTextEncode'' \<and> \<not> contains (api_title node) ''negative'')"

text \<open>The node the loops of the two image generators look for.\<close>

definition positive_widget_node :: "editor_node \<Rightarrow> bool" where
  "positive_widget_node node =
     (node_type node = ''CLIPTextEncode'' \<and> widgets_values node \<noteq> None
      \<and> \<not> contains (editor_title node) ''negative'')"

text \<open>
  Three text-encoding nodes of an editor graph: one with a negative title, one with a
  positive title, one without title.
\<close>

definition negative_encoder :: editor_node where
  "negative_encoder = \<lparr>node_id = 7, node_type = ''CLIPTextEncode'',
                        node_title = Some ''CLIP Text Encode (Negative)'',
                        widgets_values = Some [WStr ''blurry''], node_inputs = None\<rparr>"

definition positive_encoder :: editor_node where
  "positive_encoder = \<lparr>node_id = 6, node_type = ''CLIPTextEncode'',
                        node_title = Some ''CLIP Text Encode (Positive)'',
                        widgets_values = Some [WStr ''hello''], node_inputs = None\<rparr>"

definition untitled_encoder :: editor_node where
  "untitled_encoder = \<lparr>node_id = 8, node_type = ''CLIPTextEncode'', node_title = None,
                        widgets_values = Some [WStr ''style''], node_inputs = None\<rparr>"

text \<open>A document with two episode headings, and one with a single heading and two scenes.\<close>

definition two_episodes :: string where
  "two_episodes =
     ''# Episode 1 B-roll Prompts\<newline>## Scene 1\<newline>```\<newline>a cat\<newline>```\<newline># Episode 2 B-roll Prompts\<newline>## Scene 2\<newline>```\<newline>a dog\<newline>```\<newline>''"

definition one_episode :: string where
  "one_episode =
     ''# Episode 3 B-roll Prompts\<newline>\<newline>## Scene 1: Mall\<newline>```\<newline>  a cat \<newline>```\<newline>\<newline>## Scene 2\<newline>```\<newline>a dog\<newline>```\<newline>''"

section \<open>Example services\<close>

text \<open>
  A service that accepts the job and never reports outputs for it, and a service that
  rejects the submission with status 500 and the given body.
\<close>

definition silent_env :: environment where
  "silent_env =
     \<lparr>load_workflow = Returned example_graph,
      post_prompt = (\<lambda>w. Returned \<lparr>status_code = 200, response_text = ''queued'',
                                     json_prompt_id = Returned (Some ''job-1'')\<rparr>),
      get_history = (\<lambda>i pid. Returned \<lparr>history_status = 200, history_json = Returned []\<rparr>),
      path_exists = (\<lambda>f. False),
      copy2 = (\<lambda>f. Returned ())\<rparr>"

definition rejecting_env :: "string \<Rightarrow> environment" where
  "rejecting_env body =
     \<lparr>load_workflow = Returned example_graph,
      post_prompt = (\<lambda>w. Returned \<lparr>status_code = 500, response_text = body,
                                     json_prompt_id = Raised ''JSONDecodeError''\<rparr>),
      get_history = (\<lambda>i pid. Raised ''ConnectionError''),
      path_exists = (\<lambda>f. False),
      copy2 = (\<lambda>f. Returned ())\<rparr>"

section \<open>Decimal strings\<close>

lemma digit_cases: "d < 10 \<Longrightarrow> d \<in> {0,1,2,3,4,5,6,7,8,9::nat}"
  by auto

lemma digit_val_digit_char: "d < 10 \<Longrightarrow> digit_val (digit_char d) = d"
  using digit_cases [of d] by (auto simp: digit_val_def digit_char_def)

lemma nat_of_digits_append: "nat_of_digits acc (xs @ [c]) = 10 * nat_of_digits acc xs + digit_val c"
  by (induction xs arbitrary: acc) auto

lemma nat_of_digits_str_nat: "nat_of_digits 0 (str_nat n) = n"
proof (induction n rule: str_nat.induct)
  case (1 n)
  show ?case
  proof (cases "n < 10")
    case True
    then show ?thesis by (subst str_nat.simps) (simp add: digit_val_digit_char)
  next
    case False
    with 1 have "nat_of_digits 0 (str_nat (n div 10)) = n div 10" by simp
    with False show ?thesis
      by (subst str_nat.simps) (simp add: nat_of_digits_append digit_val_digit_char)
  qed
qed

lemma str_nat_inj: "str_nat m = str_nat n \<Longrightarrow> m = n"
proof -
  assume "str_nat m = str_nat n"
  then have "nat_of_digits 0 (str_nat m) = nat_of_digits 0 (str_nat n)" by (rule arg_cong)
  then show ?thesis by (simp only: nat_of_digits_str_nat)
qed

lemma digit_char_not_minus: "d < 10 \<Longrightarrow> digit_char d \<noteq> CHR ''-''"
  using digit_cases [of d] by (auto simp: digit_char_def)

lemma str_nat_hd: "\<exists>d cs. d < 10 \<and> str_nat n = digit_char d # cs"
proof (induction n rule: str_nat.induct)
  case (1 n)
  show ?case
  proof (cases "n < 10")
    case True
    then show ?thesis by (subst str_nat.simps) auto
  next
    case False
    with 1 obtain d cs where "d < 10" "str_nat (n div 10) = digit_char d # cs" by blast
    with False show ?thesis by (subst str_nat.simps) auto
  qed
qed

lemma str_nat_no_minus: "str_nat n \<noteq> CHR ''-'' # cs"
proof -
  obtain d ds where "d < 10" "str_nat n = digit_char d # ds"
    using str_nat_hd [of n] by blast
  then show ?thesis using digit_char_not_minus [of d] by simp
qed

lemma str_int_inj: "str_int i = str_int j \<Longrightarrow> i = j"
proof -
  assume eq: "str_int i = str_int j"
  show ?thesis
  proof (cases "i < 0")
    case True
    show ?thesis
    proof (cases "j < 0")
      case j: True
      with True eq have "str_nat (nat (- i)) = str_nat (nat (- j))" by (simp add: str_int_def)
      then have "nat (- i) = nat (- j)" by (rule str_nat_inj)
      with True j show ?thesis by simp
    next
      case False
      with True eq str_nat_no_minus [of "nat j" "str_nat (nat (- i))"] show ?thesis
        by (simp add: str_int_def)
    qed
  next
    case False
    show ?thesis
    proof (cases "j < 0")
      case True
      with False eq str_nat_no_minus [of "nat i" "str_nat (nat (- j))"] show ?thesis
        by (simp add: str_int_def)
    next
      case j: False
      with False eq have "str_nat (nat i) = str_nat (nat j)" by (simp add: str_int_def)
      then have "nat i = nat j" by (rule str_nat_inj)
      with False j show ?thesis by simp
    qed
  qed
qed

section \<open>The converter: lemmas\<close>

lemma set_update_subset: "set (AList.update k v al) \<subseteq> insert (k, v) (set al)"
  by (induction al) auto

lemma convert_nodes_step:
  "convert_nodes wkf (n # ns) api = Inr api' \<Longrightarrow>
   \<exists>a. convert_node wkf n = Inr a \<and>
       convert_nodes wkf ns (AList.update (str_int (node_id n)) a api) = Inr api'"
  by (auto split: sum.splits)

lemma convert_nodes_dom:
  "convert_nodes wkf ns api = Inr api' \<Longrightarrow>
   fst ` set api' = fst ` set api \<union> (\<lambda>n. str_int (node_id n)) ` set ns"
proof (induction ns arbitrary: api)
  case Nil
  then show ?case by simp
next
  case (Cons n ns)
  from convert_nodes_step [OF Cons.prems] obtain a where
    rest: "convert_nodes wkf ns (AList.update (str_int (node_id n)) a api) = Inr api'"
    by blast
  from Cons.IH [OF rest] show ?case by (auto simp: AList.dom_update)
qed

lemma convert_nodes_unchanged:
  "convert_nodes wkf ns api = Inr api' \<Longrightarrow> k \<notin> (\<lambda>n. str_int (node_id n)) ` set ns \<Longrightarrow>
   map_of api' k = map_of api k"
proof (induction ns arbitrary: api)
  case Nil
  then show ?case by simp
next
  case (Cons n ns)
  from convert_nodes_step [OF Cons.prems(1)] obtain a where
    rest: "convert_nodes wkf ns (AList.update (str_int (node_id n)) a api) = Inr api'"
    by blast
  from Cons.prems(2) have k: "k \<notin> (\<lambda>n. str_int (node_id n)) ` set ns" "k \<noteq> str_int (node_id n)"
    by auto
  from Cons.IH [OF rest k(1)] k(2) show ?case by (simp add: AList.update_conv')
qed

lemma str_int_image_iff: "str_int i \<in> (\<lambda>n. str_int (node_id n)) ` set ns \<longleftrightarrow> i \<in> node_id ` set ns"
  by (auto dest: str_int_inj)

lemma convert_nodes_keys:
  "convert_nodes wkf ns api = Inr api' \<Longrightarrow> distinct (map node_id ns) \<Longrightarrow>
   \<forall>n \<in> set ns. str_int (node_id n) \<notin> fst ` set api \<Longrightarrow>
   map fst api' = map fst api @ map (\<lambda>n. str_int (node_id n)) ns"
proof (induction ns arbitrary: api)
  case Nil
  then show ?case by simp
next
  case (Cons n ns)
  let ?k = "str_int (node_id n)"
  from convert_nodes_step [OF Cons.prems(1)] obtain a where
    rest: "convert_nodes wkf ns (AList.update ?k a api) = Inr api'"
    by blast
  from Cons.prems(2) have d: "distinct (map node_id ns)" and nin: "node_id n \<notin> node_id ` set ns"
    by auto
  from Cons.prems(3) have fresh: "?k \<notin> fst ` set api" by simp
  have "\<forall>m \<in> set ns. str_int (node_id m) \<notin> fst ` set (AList.update ?k a api)"
  proof
    fix m assume m: "m \<in> set ns"
    with Cons.prems(3) have "str_int (node_id m) \<notin> fst ` set api" by simp
    moreover from m nin have "node_id m \<noteq> node_id n" by (metis image_eqI)
    then have "str_int (node_id m) \<noteq> ?k" using str_int_inj by blast
    ultimately show "str_int (node_id m) \<notin> fst ` set (AList.update ?k a api)"
      by (simp add: AList.dom_update)
  qed
  from Cons.IH [OF rest d this] fresh show ?case
    by (simp add: AList.update_keys)
qed

lemma convert_nodes_lookup:
  "convert_nodes wkf ns api = Inr api' \<Longrightarrow> distinct (map node_id ns) \<Longrightarrow> n \<in> set ns \<Longrightarrow>
   \<exists>a. convert_node wkf n = Inr a \<and> map_of api' (str_int (node_id n)) = Some a"
proof (induction ns arbitrary: api)
  case Nil
  then show ?case by simp
next
  case (Cons m ns)
  let ?k = "str_int (node_id m)"
  from convert_nodes_step [OF Cons.prems(1)] obtain a where a: "convert_node wkf m = Inr a"
    and rest: "convert_nodes wkf ns (AList.update ?k a api) = Inr api'"
    by blast
  from Cons.prems(2) have d: "distinct (map node_id ns)" and nin: "node_id m \<notin> node_id ` set ns"
    by auto
  show ?case
  proof (cases "n = m")
    case True
    from nin have "?k \<notin> (\<lambda>n. str_int (node_id n)) ` set ns"
      by (simp add: str_int_image_iff)
    from convert_nodes_unchanged [OF rest this] have "map_of api' ?k = Some a"
      by (simp add: AList.update_conv')
    with a True show ?thesis by simp
  next
    case False
    with Cons.prems(3) have "n \<in> set ns" by simp
    from Cons.IH [OF rest d this] show ?thesis .
  qed
qed

lemma convert_nodes_origin:
  "convert_nodes wkf ns api = Inr api' \<Longrightarrow> (k, a) \<in> set api' \<Longrightarrow>
   (k, a) \<in> set api \<or> (\<exists>n \<in> set ns. convert_node wkf n = Inr a)"
proof (induction ns arbitrary: api)
  case Nil
  then show ?case by simp
next
  case (Cons m ns)
  let ?k = "str_int (node_id m)"
  from convert_nodes_step [OF Cons.prems(1)] obtain b where b: "convert_node wkf m = Inr b"
    and rest: "convert_nodes wkf ns (AList.update ?k b api) = Inr api'"
    by blast
  from Cons.IH [OF rest Cons.prems(2)]
  have "(k, a) \<in> set (AList.update ?k b api) \<or> (\<exists>n \<in> set ns. convert_node wkf n = Inr a)" .
  then show ?case
  proof
    assume "(k, a) \<in> set (AList.update ?k b api)"
    with set_update_subset [of ?k b api] have "(k, a) = (?k, b) \<or> (k, a) \<in> set api" by auto
    with b show ?thesis by auto
  next
    assume "\<exists>n \<in> set ns. convert_node wkf n = Inr a"
    then show ?thesis by auto
  qed
qed

lemma resolve_link_found:
  "find (\<lambda>l. link_id l = lid) ls = Some e \<Longrightarrow>
   resolve_link ls lid name ins =
     AList.update name (Reference (str_int (link_source e)) (link_slot e)) ins"
  by (induction ls) (auto split: if_splits)

lemma resolve_link_missing:
  "find (\<lambda>l. link_id l = lid) ls = None \<Longrightarrow> resolve_link ls lid name ins = ins"
  by (induction ls) (auto split: if_splits)

lemma convert_input_resolved:
  "input_link info = LinkId lid \<Longrightarrow> find (\<lambda>l. link_id l = lid) (workflow_links wkf) = Some e \<Longrightarrow>
   convert_input wkf info ins =
     AList.update (input_name info) (Reference (str_int (link_source e)) (link_slot e)) ins"
  by (cases "links wkf")
     (simp_all add: convert_input_def workflow_links_def resolve_link_found)

lemma convert_input_skipped:
  "\<not> link_resolves wkf info \<Longrightarrow> convert_input wkf info ins = ins"
  by (cases "links wkf"; cases "input_link info")
     (simp_all add: convert_input_def link_resolves_def workflow_links_def resolve_link_missing)

lemma convert_input_cases:
  "convert_input wkf info ins = ins \<or>
   (\<exists>e \<in> set (workflow_links wkf).
      convert_input wkf info ins =
        AList.update (input_name info) (Reference (str_int (link_source e)) (link_slot e)) ins)"
proof (cases "link_resolves wkf info")
  case False
  then show ?thesis by (simp add: convert_input_skipped)
next
  case True
  then obtain lid e where l: "input_link info = LinkId lid"
    and e: "find (\<lambda>l. link_id l = lid) (workflow_links wkf) = Some e"
    by (auto simp: link_resolves_def split: link_field.splits)
  from e have "e \<in> set (workflow_links wkf)" by (auto simp: find_Some_iff)
  with convert_input_resolved [OF l e] show ?thesis by blast
qed

lemma convert_input_other:
  "k \<noteq> input_name info \<Longrightarrow> map_of (convert_input wkf info ins) k = map_of ins k"
  using convert_input_cases [of wkf info ins] by (auto simp: AList.update_conv')

lemma convert_inputs_other:
  "k \<notin> input_name ` set infos \<Longrightarrow> map_of (convert_inputs wkf infos ins) k = map_of ins k"
  by (induction infos arbitrary: ins) (simp_all add: convert_input_other)

lemma convert_inputs_append:
  "convert_inputs wkf (xs @ ys) ins = convert_inputs wkf ys (convert_inputs wkf xs ins)"
  by (induction xs arbitrary: ins) simp_all





lemma convert_inputs_skip:
  "\<not> link_resolves wkf info \<Longrightarrow>
   convert_inputs wkf (xs @ info # ys) ins = convert_inputs wkf (xs @ ys) ins"
  by (simp add: convert_inputs_append convert_input_skipped)

lemma convert_inputs_none_resolve:
  "\<forall>info \<in> set infos. input_name info = k \<longrightarrow> \<not> link_resolves wkf info \<Longrightarrow>
   map_of (convert_inputs wkf infos ins) k = map_of ins k"
proof (induction infos arbitrary: ins)
  case Nil
  then show ?case by simp
next
  case (Cons info infos)
  have "map_of (convert_input wkf info ins) k = map_of ins k"
  proof (cases "input_name info = k")
    case True
    with Cons.prems have "\<not> link_resolves wkf info" by simp
    then show ?thesis by (simp add: convert_input_skipped)
  next
    case False
    then show ?thesis by (simp add: convert_input_other)
  qed
  moreover from Cons.prems
  have "\<forall>info \<in> set infos. input_name info = k \<longrightarrow> \<not> link_resolves wkf info" by simp
  ultimately show ?case using Cons.IH by simp
qed

lemma convert_node_inputs:
  "convert_node wkf n = Inr a \<Longrightarrow>
   \<exists>ws. convert_widgets n = Inr ws \<and> inputs a = convert_inputs wkf (node_input_list n) ws"
  by (cases "node_inputs n")
     (auto simp: convert_node_def node_input_list_def split: sum.splits)


lemma convert_widgets_literal:
  "convert_widgets n = Inr ws \<Longrightarrow> (name, v) \<in> set ws \<Longrightarrow> \<exists>lit. v = Literal lit"
  by (auto simp: convert_widgets_def split: option.splits if_splits list.splits)


lemma convert_widgets_keys:
  "convert_widgets n = Inr ws \<Longrightarrow> map_of ws k = Some v \<Longrightarrow>
   k = ''text'' \<and> node_type n = ''CLIPTextEncode'' \<and> widgets_values n \<noteq> None"
  by (auto simp: convert_widgets_def split: option.splits if_splits list.splits)

lemma refs_from_links_input:
  "refs_from_links wkf ins \<Longrightarrow> refs_from_links wkf (convert_input wkf info ins)"
proof -
  assume r: "refs_from_links wkf ins"
  from convert_input_cases [of wkf info ins] show ?thesis
  proof
    assume "convert_input wkf info ins = ins"
    with r show ?thesis by simp
  next
    assume "\<exists>e \<in> set (workflow_links wkf). convert_input wkf info ins =
        AList.update (input_name info) (Reference (str_int (link_source e)) (link_slot e)) ins"
    then obtain e where e: "e \<in> set (workflow_links wkf)"
      and c: "convert_input wkf info ins =
        AList.update (input_name info) (Reference (str_int (link_source e)) (link_slot e)) ins"
      by blast
    show ?thesis
      unfolding refs_from_links_def c
    proof (intro allI impI)
      fix name s j
      assume "(name, Reference s j) \<in> set (AList.update (input_name info)
                 (Reference (str_int (link_source e)) (link_slot e)) ins)"
      with set_update_subset
      have "(name, Reference s j) = (input_name info, Reference (str_int (link_source e)) (link_slot e))
            \<or> (name, Reference s j) \<in> set ins" by fastforce
      with e r show "\<exists>l \<in> set (workflow_links wkf). s = str_int (link_source l)"
        by (auto simp: refs_from_links_def)
    qed
  qed
qed

lemma refs_from_links_inputs:
  "refs_from_links wkf ins \<Longrightarrow> refs_from_links wkf (convert_inputs wkf infos ins)"
  by (induction infos arbitrary: ins) (simp_all add: refs_from_links_input)

lemma refs_from_links_node:
  assumes "convert_node wkf n = Inr a"
  shows "refs_from_links wkf (inputs a)"
proof -
  from convert_node_inputs [OF assms] obtain ws where ws: "convert_widgets n = Inr ws"
    and a: "inputs a = convert_inputs wkf (node_input_list n) ws" by blast
  from convert_widgets_literal [OF ws] have "refs_from_links wkf ws"
    by (fastforce simp: refs_from_links_def)
  then show ?thesis unfolding a by (rule refs_from_links_inputs)
qed

lemma convert_workflow_nodes:
  "convert_workflow_to_api wkf = convert_nodes wkf (workflow_nodes wkf) []"
  by (cases "nodes wkf") (simp_all add: convert_workflow_to_api_def workflow_nodes_def)

lemmas example_defs = loader_node_def encoder_node_def example_graph_def duplicate_links_graph_def
  text_linked_node_def text_dangling_node_def dangling_graph_def

lemmas convert_defs = convert_workflow_to_api_def convert_node_def convert_widgets_def
  convert_input_def workflow_nodes_def workflow_links_def

lemma str_int_12: "str_int 12 = ''12''"
  by (simp add: str_int_def str_nat.simps digit_char_def)

lemma str_int_6: "str_int 6 = ''6''"
  by (simp add: str_int_def str_nat.simps digit_char_def)

lemma example_graph_converted: "convert_workflow_to_api example_graph = Inr example_api"
  by (simp add: example_defs convert_defs str_int_12 str_int_6 example_api_def
        encoder_api_node_def)

lemma duplicate_links_graph_converted:
  "convert_workflow_to_api duplicate_links_graph = Inr example_api"
  by (simp add: example_defs convert_defs str_int_12 str_int_6 example_api_def
        encoder_api_node_def)

text \<open>
  The converter raises exactly when some \<open>CLIPTextEncode\<close> node has an empty
  \<open>widgets_values\<close> list; the link table has no part in it.
\<close>

lemma convert_widgets_raises_iff:
  "(\<exists>e. convert_widgets n = Inl e) \<longleftrightarrow>
   node_type n = ''CLIPTextEncode'' \<and> widgets_values n = Some []"
  by (auto simp: convert_widgets_def split: option.splits list.splits)

lemma convert_node_raises_iff:
  "(\<exists>e. convert_node wkf n = Inl e) \<longleftrightarrow>
   node_type n = ''CLIPTextEncode'' \<and> widgets_values n = Some []"
proof -
  have "(\<exists>e. convert_node wkf n = Inl e) \<longleftrightarrow> (\<exists>e. convert_widgets n = Inl e)"
    by (cases "convert_widgets n") (simp_all add: convert_node_def)
  then show ?thesis by (simp only: convert_widgets_raises_iff)
qed

lemma convert_nodes_raises_iff:
  "(\<exists>e. convert_nodes wkf ns api = Inl e) \<longleftrightarrow>
   (\<exists>n \<in> set ns. node_type n = ''CLIPTextEncode'' \<and> widgets_values n = Some [])"
proof (induction ns arbitrary: api)
  case Nil
  show ?case by simp
next
  case (Cons n ns)
  show ?case
  proof (cases "convert_node wkf n")
    case (Inl e)
    then have "\<exists>e. convert_node wkf n = Inl e" by blast
    then have "node_type n = ''CLIPTextEncode'' \<and> widgets_values n = Some []"
      using convert_node_raises_iff [of wkf n] by blast
    with Inl show ?thesis by simp
  next
    case (Inr a)
    then have "\<not> (\<exists>e. convert_node wkf n = Inl e)" by simp
    then have "\<not> (node_type n = ''CLIPTextEncode'' \<and> widgets_values n = Some [])"
      using convert_node_raises_iff [of wkf n] by blast
    with Inr Cons.IH [of "AList.update (str_int (node_id n)) a api"] show ?thesis by auto
  qed
qed

lemma converter_raises_iff:
  "(\<exists>e. convert_workflow_to_api wkf = Inl e) \<longleftrightarrow>
   (\<exists>n \<in> set (workflow_nodes wkf). node_type n = ''CLIPTextEncode'' \<and> widgets_values n = Some [])"
  by (simp only: convert_workflow_nodes convert_nodes_raises_iff)

lemma converter_returns:
  assumes "\<not> empty_text_widgets wkf"
  shows "\<exists>api. convert_workflow_to_api wkf = Inr api"
proof (cases "convert_workflow_to_api wkf")
  case (Inl e)
  then have "\<exists>e. convert_workflow_to_api wkf = Inl e" by blast
  then have "\<exists>n \<in> set (workflow_nodes wkf).
               node_type n = ''CLIPTextEncode'' \<and> widgets_values n = Some []"
    using converter_raises_iff [of wkf] by blast
  with assms show ?thesis by (simp add: empty_text_widgets_def list_ex_iff)
next
  case (Inr api)
  then show ?thesis by blast
qed

lemma convert_nodes_lookup_last:
  "convert_nodes wkf (ns1 @ n # ns2) api = Inr api' \<Longrightarrow> node_id n \<notin> node_id ` set ns2 \<Longrightarrow>
   \<exists>a. convert_node wkf n = Inr a \<and> map_of api' (str_int (node_id n)) = Some a"
proof (induction ns1 arbitrary: api)
  case Nil
  let ?k = "str_int (node_id n)"
  from Nil.prems(1) have "convert_nodes wkf (n # ns2) api = Inr api'" by simp
  from convert_nodes_step [OF this] obtain a where a: "convert_node wkf n = Inr a"
    and rest: "convert_nodes wkf ns2 (AList.update ?k a api) = Inr api'" by blast
  from Nil.prems(2) have "?k \<notin> (\<lambda>n. str_int (node_id n)) ` set ns2"
    by (simp add: str_int_image_iff)
  from convert_nodes_unchanged [OF rest this] have "map_of api' ?k = Some a"
    by (simp add: AList.update_conv')
  with a show ?case by blast
next
  case (Cons m ns1)
  from Cons.prems(1) have "convert_nodes wkf (m # (ns1 @ n # ns2)) api = Inr api'" by simp
  from convert_nodes_step [OF this] obtain b where
    rest: "convert_nodes wkf (ns1 @ n # ns2) (AList.update (str_int (node_id m)) b api) = Inr api'"
    by blast
  from Cons.IH [OF rest Cons.prems(2)] show ?case .
qed

lemma convert_inputs_resolved_last:
  assumes "input_link info = LinkId lid"
    and "find (\<lambda>l. link_id l = lid) (workflow_links wkf) = Some e"
    and "\<forall>i \<in> set ys. input_name i = input_name info \<longrightarrow> \<not> link_resolves wkf i"
  shows "map_of (convert_inputs wkf (xs @ info # ys) ins) (input_name info) =
           Some (Reference (str_int (link_source e)) (link_slot e))"
proof -
  let ?mid = "convert_input wkf info (convert_inputs wkf xs ins)"
  have "convert_inputs wkf (xs @ info # ys) ins = convert_inputs wkf ys ?mid"
    by (simp add: convert_inputs_append)
  moreover from assms(3)
  have "map_of (convert_inputs wkf ys ?mid) (input_name info) = map_of ?mid (input_name info)"
    by (rule convert_inputs_none_resolve)
  moreover have "map_of ?mid (input_name info) =
           Some (Reference (str_int (link_source e)) (link_slot e))"
    by (simp add: convert_input_resolved [OF assms(1,2)] AList.update_conv')
  ultimately show ?thesis by simp
qed

lemma str_int_5: "str_int 5 = ''5''"
  by (simp add: str_int_def str_nat.simps digit_char_def)

section \<open>The converter: claims\<close>

text \<open>
  Claim C1. In a well-formed editor graph every entry of the link table names a source node
  that is a node of the graph (\<open>link_sources_present\<close>). For such a graph, whenever the
  converter produces an execution graph, every input of every execution node that is a
  reference \<open>[source_node_id, source_output_slot]\<close> has a \<open>source_node_id\<close> that is a
  key of the produced graph.
\<close>

theorem converter_no_dangling_references:
  assumes "link_sources_present wkf" and "convert_workflow_to_api wkf = Inr api"
    and "(k, a) \<in> set api" and "(name, Reference s j) \<in> set (inputs a)"
  shows "s \<in> set (map fst api)"
proof -
  from assms(2) have c: "convert_nodes wkf (workflow_nodes wkf) [] = Inr api"
    by (simp add: convert_workflow_nodes)
  from convert_nodes_origin [OF c assms(3)] obtain n where "convert_node wkf n = Inr a"
    by auto
  then have "refs_from_links wkf (inputs a)" by (rule refs_from_links_node)
  with assms(4) obtain l where l: "l \<in> set (workflow_links wkf)" and s: "s = str_int (link_source l)"
    by (auto simp: refs_from_links_def)
  from assms(1) l have "link_source l \<in> node_id ` set (workflow_nodes wkf)"
    by (simp add: link_sources_present_def list_all_iff)
  then have "s \<in> (\<lambda>n. str_int (node_id n)) ` set (workflow_nodes wkf)"
    unfolding s by (simp add: str_int_image_iff)
  with convert_nodes_dom [OF c] show ?thesis by simp
qed

theorem converter_no_dangling_references_witness:
  "link_sources_present example_graph
   \<and> convert_workflow_to_api example_graph = Inr example_api
   \<and> (''6'', encoder_api_node) \<in> set example_api
   \<and> (''clip'', Reference ''12'' 0) \<in> set (inputs encoder_api_node)
   \<and> ''12'' \<in> set (map fst example_api)"
proof -
  have p: "link_sources_present example_graph"
    by (simp add: link_sources_present_def example_defs workflow_nodes_def workflow_links_def)
  have c: "convert_workflow_to_api example_graph = Inr example_api"
    by (rule example_graph_converted)
  have m: "(''6'', encoder_api_node) \<in> set example_api" by (simp add: example_api_def)
  have r: "(''clip'', Reference ''12'' 0) \<in> set (inputs encoder_api_node)"
    by (simp add: encoder_api_node_def)
  have "''12'' \<in> set (map fst example_api)"
    by (rule converter_no_dangling_references [OF p c m r])
  with p c m r show ?thesis by (intro conjI)
qed

text \<open>
  Without the condition on the link table the reference can dangle: the converter does
  not look at the nodes when it resolves a link.
\<close>

lemma orphan_link_dangles:
  "convert_workflow_to_api orphan_link_graph = Inr [(''6'', encoder_api_node)]"
  "\<not> link_sources_present orphan_link_graph"
  "(''clip'', Reference ''12'' 0) \<in> set (inputs encoder_api_node)"
  "''12'' \<notin> set (map fst [(''6'', encoder_api_node)])"
  by (simp_all add: orphan_link_graph_def encoder_node_def encoder_api_node_def convert_defs
        str_int_12 str_int_6 link_sources_present_def)

text \<open>
  Claim C6, as amended. For an editor graph with N nodes whose ids are pairwise distinct
  and in which no \<open>CLIPTextEncode\<close> node has an empty \<open>widgets_values\<close> list, the
  converter produces an execution graph with exactly N keys: the string forms of the node
  ids, one per node, in the order of the nodes and without repetition.
\<close>

theorem converter_one_key_per_node:
  assumes "distinct (map node_id (workflow_nodes wkf))" and "\<not> empty_text_widgets wkf"
  shows "\<exists>api. convert_workflow_to_api wkf = Inr api
           \<and> length api = length (workflow_nodes wkf)
           \<and> map fst api = map (\<lambda>n. str_int (node_id n)) (workflow_nodes wkf)
           \<and> distinct (map fst api)"
proof -
  from converter_returns [OF assms(2)] obtain api where r: "convert_workflow_to_api wkf = Inr api"
    by blast
  then have c: "convert_nodes wkf (workflow_nodes wkf) [] = Inr api"
    by (simp add: convert_workflow_nodes)
  from convert_nodes_keys [OF c assms(1)]
  have keys: "map fst api = map (\<lambda>n. str_int (node_id n)) (workflow_nodes wkf)" by simp
  then have "length (map fst api) = length (map (\<lambda>n. str_int (node_id n)) (workflow_nodes wkf))"
    by simp
  then have len: "length api = length (workflow_nodes wkf)" by simp
  have "inj_on str_int (set (map node_id (workflow_nodes wkf)))"
    by (rule inj_onI) (rule str_int_inj)
  with assms(1) have "distinct (map str_int (map node_id (workflow_nodes wkf)))"
    by (simp only: distinct_map simp_thms)
  then have "distinct (map fst api)" by (simp add: keys comp_def)
  with r keys len show ?thesis by (intro exI conjI)
qed

theorem converter_one_key_per_node_witness:
  "distinct (map node_id (workflow_nodes example_graph))
   \<and> \<not> empty_text_widgets example_graph
   \<and> convert_workflow_to_api example_graph = Inr example_api
   \<and> length example_api = 2 \<and> map fst example_api = [''12'', ''6'']"
proof -
  have d: "distinct (map node_id (workflow_nodes example_graph))"
    by (simp add: example_defs workflow_nodes_def)
  have w: "\<not> empty_text_widgets example_graph"
    by (simp add: empty_text_widgets_def example_defs workflow_nodes_def)
  have n: "workflow_nodes example_graph = [loader_node, encoder_node]"
    by (simp add: example_graph_def workflow_nodes_def)
  from converter_one_key_per_node [OF d w] obtain api where
    c: "convert_workflow_to_api example_graph = Inr api"
    and l: "length api = length (workflow_nodes example_graph)"
    and k: "map fst api = map (\<lambda>n. str_int (node_id n)) (workflow_nodes example_graph)"
    by (elim exE conjE)
  from c have e: "api = example_api" by (simp add: example_graph_converted)
  from l k have "length example_api = 2 \<and> map fst example_api = [''12'', ''6'']"
    by (simp add: e n loader_node_def encoder_node_def str_int_12 str_int_6)
  with d w c e show ?thesis by simp
qed

text \<open>
  The claim as first stated, for every graph with distinct node ids, fails: on a
  \<open>CLIPTextEncode\<close> node with \<open>widgets_values = []\<close> the converter raises
  \<open>IndexError\<close> and produces no graph.
\<close>

theorem converter_raises_on_empty_widgets_counterexample:
  "distinct (map node_id (workflow_nodes empty_widgets_graph))
   \<and> convert_workflow_to_api empty_widgets_graph = Inl IndexError"
  by (simp add: empty_widgets_graph_def loader_node_def workflow_nodes_def convert_defs)

text \<open>
  Claim C7, as amended. Let an input slot of a node carry a link identifier, and let the
  first entry of the link table with that identifier have source node \<open>s\<close> and output
  slot \<open>k\<close>. If no \<open>CLIPTextEncode\<close> node of the graph has an empty
  \<open>widgets_values\<close> list, no later node has the id of the node, and no later input of
  the node with the same name carries a link that the link table resolves, then the
  converter produces an execution graph in which the node of that id has, under the name
  of the slot, the reference \<open>[str(s), k]\<close>. For link 7 and the entry (7, 12, 0) the
  reference is \<open>["12", 0]\<close>, also when a later entry repeats the identifier 7.
\<close>

theorem converter_resolves_link:
  assumes "nodes wkf = Some (ns1 @ n # ns2)" and "node_id n \<notin> node_id ` set ns2"
    and "\<not> empty_text_widgets wkf"
    and "node_inputs n = Some (xs @ info # ys)"
    and "\<forall>i \<in> set ys. input_name i = input_name info \<longrightarrow> \<not> link_resolves wkf i"
    and "input_link info = LinkId lid"
    and "find (\<lambda>l. link_id l = lid) (workflow_links wkf) = Some e"
  shows "\<exists>api a. convert_workflow_to_api wkf = Inr api
           \<and> map_of api (str_int (node_id n)) = Some a
           \<and> map_of (inputs a) (input_name info)
               = Some (Reference (str_int (link_source e)) (link_slot e))"
proof -
  from converter_returns [OF assms(3)] obtain api where r: "convert_workflow_to_api wkf = Inr api"
    by blast
  with assms(1) have c: "convert_nodes wkf (ns1 @ n # ns2) [] = Inr api"
    by (simp add: convert_workflow_to_api_def)
  from convert_nodes_lookup_last [OF c assms(2)] obtain a where a: "convert_node wkf n = Inr a"
    and look: "map_of api (str_int (node_id n)) = Some a" by blast
  from convert_node_inputs [OF a] obtain ws where
    "inputs a = convert_inputs wkf (node_input_list n) ws" by blast
  with assms(4) have "inputs a = convert_inputs wkf (xs @ info # ys) ws"
    by (simp add: node_input_list_def)
  with convert_inputs_resolved_last [OF assms(6,7,5), of xs ws]
  have "map_of (inputs a) (input_name info)
          = Some (Reference (str_int (link_source e)) (link_slot e))" by simp
  with r look show ?thesis by (intro exI conjI)
qed

theorem converter_resolves_link_witness:
  "nodes duplicate_links_graph = Some [loader_node, encoder_node]
   \<and> \<not> empty_text_widgets duplicate_links_graph
   \<and> node_inputs encoder_node = Some [\<lparr>input_name = ''clip'', input_link = LinkId 7\<rparr>]
   \<and> convert_workflow_to_api duplicate_links_graph = Inr example_api
   \<and> map_of example_api ''6'' = Some encoder_api_node
   \<and> map_of (inputs encoder_api_node) ''clip'' = Some (Reference ''12'' 0)"
proof -
  let ?info = "\<lparr>input_name = ''clip'', input_link = LinkId 7\<rparr>"
  let ?e = "\<lparr>link_id = 7, link_source = 12, link_slot = 0\<rparr>"
  have n: "nodes duplicate_links_graph = Some ([loader_node] @ encoder_node # [])"
    by (simp add: duplicate_links_graph_def)
  have u: "node_id encoder_node \<notin> node_id ` set []" by simp
  have w: "\<not> empty_text_widgets duplicate_links_graph"
    by (simp add: empty_text_widgets_def example_defs workflow_nodes_def)
  have i: "node_inputs encoder_node = Some ([] @ ?info # [])" by (simp add: encoder_node_def)
  have y: "\<forall>i \<in> set []. input_name i = input_name ?info
             \<longrightarrow> \<not> link_resolves duplicate_links_graph i" by simp
  have l: "input_link ?info = LinkId 7" by simp
  have f: "find (\<lambda>l. link_id l = 7) (workflow_links duplicate_links_graph) = Some ?e"
    by (simp add: duplicate_links_graph_def workflow_links_def)
  have k: "str_int (node_id encoder_node) = ''6''" by (simp add: encoder_node_def str_int_6)
  from converter_resolves_link [OF n u w i y l f] obtain api a where
    c: "convert_workflow_to_api duplicate_links_graph = Inr api"
    and m: "map_of api (str_int (node_id encoder_node)) = Some a"
    and r: "map_of (inputs a) (input_name ?info)
              = Some (Reference (str_int (link_source ?e)) (link_slot ?e))"
    by (elim exE conjE)
  from c have e: "api = example_api" by (simp add: duplicate_links_graph_converted)
  from m have a: "a = encoder_api_node" by (simp add: e k example_api_def)
  from m have m': "map_of example_api ''6'' = Some encoder_api_node" by (simp add: e k a)
  from r have r': "map_of (inputs encoder_api_node) ''clip'' = Some (Reference ''12'' 0)"
    by (simp add: a str_int_12)
  from c e have c': "convert_workflow_to_api duplicate_links_graph = Inr example_api" by simp
  from n i w c' m' r' show ?thesis by simp
qed

text \<open>
  The claim as first stated fails when the node has a second input of the same name:
  the input \<open>clip\<close> carries link 7, the link table has the entry (7, 12, 0), and the
  execution node has \<open>clip = ["5", 1]\<close>, the reference of the later input.
\<close>

theorem repeated_input_name_counterexample:
  "node_inputs repeated_name_node = Some [\<lparr>input_name = ''clip'', input_link = LinkId 7\<rparr>,
                                          \<lparr>input_name = ''clip'', input_link = LinkId 8\<rparr>]
   \<and> links repeated_name_graph = Some [\<lparr>link_id = 7, link_source = 12, link_slot = 0\<rparr>,
                                        \<lparr>link_id = 8, link_source = 5, link_slot = 1\<rparr>]
   \<and> convert_workflow_to_api repeated_name_graph =
       Inr [(''12'', \<lparr>class_type = ''CheckpointLoaderSimple'', inputs = [], meta_title = None\<rparr>),
            (''6'', \<lparr>class_type = ''CLIPTextEncode'',
                     inputs = [(''text'', Literal (WStr ''hello'')), (''clip'', Reference ''5'' 1)],
                     meta_title = Some ''CLIP Text Encode (Positive)''\<rparr>)]"
  by (simp add: repeated_name_graph_def repeated_name_node_def loader_node_def encoder_node_def
        convert_defs str_int_12 str_int_6 str_int_5)

text \<open>
  The two other conditions are needed as well: the converter raises on an empty widget
  list whatever the links are (\<open>converter_raises_iff\<close>), and a later node with the same
  id takes the place of the execution node, here without the input \<open>clip\<close>.
\<close>

lemma repeated_node_id_replaces_node:
  "convert_workflow_to_api repeated_id_graph =
     Inr [(''6'', \<lparr>class_type = ''VAEDecode'', inputs = [], meta_title = None\<rparr>)]"
  by (simp add: repeated_id_graph_def encoder_node_def convert_defs str_int_12 str_int_6)

lemma convert_input_cong:
  "links wkf = links wkf' \<Longrightarrow> convert_input wkf info ins = convert_input wkf' info ins"
  by (simp add: convert_input_def split: link_field.splits)

lemma convert_inputs_cong:
  "links wkf = links wkf' \<Longrightarrow> convert_inputs wkf infos ins = convert_inputs wkf' infos ins"
proof (induction infos arbitrary: ins)
  case Nil
  show ?case by simp
next
  case (Cons info infos)
  from Cons.prems have "convert_input wkf info ins = convert_input wkf' info ins"
    by (rule convert_input_cong)
  with Cons.IH [OF Cons.prems] show ?case by simp
qed

lemma convert_node_cong:
  "links wkf = links wkf' \<Longrightarrow> convert_node wkf n = convert_node wkf' n"
proof -
  assume "links wkf = links wkf'"
  then have "\<And>infos ins. convert_inputs wkf infos ins = convert_inputs wkf' infos ins"
    by (rule convert_inputs_cong)
  then show ?thesis by (simp add: convert_node_def split: sum.splits option.splits)
qed

lemma convert_nodes_cong:
  "links wkf = links wkf' \<Longrightarrow> convert_nodes wkf ns api = convert_nodes wkf' ns api"
proof (induction ns arbitrary: api)
  case Nil
  show ?case by simp
next
  case (Cons n ns)
  from Cons.prems have "convert_node wkf n = convert_node wkf' n" by (rule convert_node_cong)
  with Cons.IH [OF Cons.prems] show ?case by (simp split: sum.splits)
qed

lemma convert_nodes_replace:
  "convert_node wkf n = convert_node wkf n' \<Longrightarrow> node_id n = node_id n' \<Longrightarrow>
   convert_nodes wkf (ns1 @ n # ns2) api = convert_nodes wkf (ns1 @ n' # ns2) api"
  by (induction ns1 arbitrary: api) (simp_all split: sum.splits)

lemma no_entry_not_resolved:
  "input_link info = LinkId lid \<Longrightarrow> \<forall>l \<in> set (workflow_links wkf). link_id l \<noteq> lid \<Longrightarrow>
   \<not> link_resolves wkf info"
  by (simp add: link_resolves_def find_None_iff)

lemma convert_widgets_inputs_update:
  "convert_widgets (n\<lparr>node_inputs := x\<rparr>) = convert_widgets n"
  by (simp add: convert_widgets_def split: option.splits)

lemma convert_node_skip:
  assumes "node_inputs n = Some (xs @ info # ys)" and "\<not> link_resolves wkf info"
  shows "convert_node wkf n = convert_node wkf (n\<lparr>node_inputs := Some (xs @ ys)\<rparr>)"
proof -
  from assms(2) have "\<And>ins. convert_inputs wkf (xs @ info # ys) ins = convert_inputs wkf (xs @ ys) ins"
    by (rule convert_inputs_skip)
  with assms(1) show ?thesis
    by (simp add: convert_node_def convert_widgets_inputs_update split: sum.splits)
qed


lemma dangling_graph_converted:
  "convert_workflow_to_api dangling_graph =
     Inr [(''12'', \<lparr>class_type = ''CheckpointLoaderSimple'', inputs = [], meta_title = None\<rparr>),
          (''6'', \<lparr>class_type = ''CLIPTextEncode'',
                   inputs = [(''text'', Literal (WStr ''hello''))], meta_title = None\<rparr>)]"
  by (simp add: example_defs convert_defs str_int_12 str_int_6)




text \<open>
  Claim C9, as amended. An input whose link identifier is in no entry of the link table is
  skipped: the converter gives the result, or raises the exception, that it gives for the
  graph without that input, so every other input and every other node is converted as
  before and no conversion fails because of the unresolved link. The execution node has
  no entry under the name of the skipped input unless another input of the node has that
  name or the name is \<open>text\<close> and the widget value of a \<open>CLIPTextEncode\<close> node fills it.
\<close>

theorem unresolved_link_is_skipped:
  assumes "nodes wkf = Some (ns1 @ n # ns2)" and "node_inputs n = Some (xs @ info # ys)"
    and "input_link info = LinkId lid"
    and "\<forall>l \<in> set (workflow_links wkf). link_id l \<noteq> lid"
  shows "convert_workflow_to_api wkf =
           convert_workflow_to_api
             (wkf\<lparr>nodes := Some (ns1 @ n\<lparr>node_inputs := Some (xs @ ys)\<rparr> # ns2)\<rparr>)
       \<and> (\<forall>a. convert_node wkf n = Inr a \<longrightarrow>
              input_name info \<notin> input_name ` set (xs @ ys) \<longrightarrow>
              \<not> (node_type n = ''CLIPTextEncode'' \<and> widgets_values n \<noteq> None
                   \<and> input_name info = ''text'') \<longrightarrow>
              map_of (inputs a) (input_name info) = None)"
proof -
  let ?n' = "n\<lparr>node_inputs := Some (xs @ ys)\<rparr>"
  let ?wkf' = "wkf\<lparr>nodes := Some (ns1 @ ?n' # ns2)\<rparr>"
  from assms(3,4) have nr: "\<not> link_resolves wkf info" by (rule no_entry_not_resolved)
  have node: "convert_node wkf n = convert_node wkf ?n'"
    using assms(2) nr by (rule convert_node_skip)
  have "convert_workflow_to_api wkf = convert_nodes wkf (ns1 @ n # ns2) []"
    by (simp add: convert_workflow_to_api_def assms(1))
  also have "\<dots> = convert_nodes wkf (ns1 @ ?n' # ns2) []"
    using node by (rule convert_nodes_replace) simp
  also have "\<dots> = convert_nodes ?wkf' (ns1 @ ?n' # ns2) []"
    by (rule convert_nodes_cong) simp
  also have "\<dots> = convert_workflow_to_api ?wkf'"
    by (simp add: convert_workflow_to_api_def)
  finally have first: "convert_workflow_to_api wkf = convert_workflow_to_api ?wkf'" .
  have second: "\<forall>a. convert_node wkf n = Inr a \<longrightarrow>
              input_name info \<notin> input_name ` set (xs @ ys) \<longrightarrow>
              \<not> (node_type n = ''CLIPTextEncode'' \<and> widgets_values n \<noteq> None
                   \<and> input_name info = ''text'') \<longrightarrow>
              map_of (inputs a) (input_name info) = None"
  proof (intro allI impI)
    fix a
    assume a: "convert_node wkf n = Inr a"
      and other: "input_name info \<notin> input_name ` set (xs @ ys)"
      and widget: "\<not> (node_type n = ''CLIPTextEncode'' \<and> widgets_values n \<noteq> None
                   \<and> input_name info = ''text'')"
    from convert_node_inputs [OF a] obtain ws where ws: "convert_widgets n = Inr ws"
      and i: "inputs a = convert_inputs wkf (node_input_list n) ws" by blast
    from i assms(2) nr have "inputs a = convert_inputs wkf (xs @ ys) ws"
      by (simp add: node_input_list_def convert_inputs_skip)
    moreover from other
    have "map_of (convert_inputs wkf (xs @ ys) ws) (input_name info) = map_of ws (input_name info)"
      by (rule convert_inputs_other)
    ultimately have "map_of (inputs a) (input_name info) = map_of ws (input_name info)"
      by simp
    moreover have "map_of ws (input_name info) = None"
    proof (cases "map_of ws (input_name info)")
      case None
      then show ?thesis .
    next
      case (Some v)
      from convert_widgets_keys [OF ws Some] widget show ?thesis by simp
    qed
    ultimately show "map_of (inputs a) (input_name info) = None" by simp
  qed
  from first second show ?thesis by (rule conjI)
qed

theorem unresolved_link_is_skipped_witness:
  "nodes extra_graph = Some [loader_node, encoder_node_extra]
   \<and> node_inputs encoder_node_extra
       = Some [\<lparr>input_name = ''clip'', input_link = LinkId 7\<rparr>, extra_input]
   \<and> input_link extra_input = LinkId 99
   \<and> \<not> link_resolves extra_graph extra_input
   \<and> convert_workflow_to_api extra_graph = Inr example_api
   \<and> map_of (inputs encoder_api_node) (input_name extra_input) = None"
proof -
  let ?clip = "\<lparr>input_name = ''clip'', input_link = LinkId 7\<rparr>"
  have n: "nodes extra_graph = Some ([loader_node] @ encoder_node_extra # [])"
    by (simp add: extra_graph_def)
  have i: "node_inputs encoder_node_extra = Some ([?clip] @ extra_input # [])"
    by (simp add: encoder_node_extra_def)
  have l: "input_link extra_input = LinkId 99" by (simp add: extra_input_def)
  have f: "\<forall>l \<in> set (workflow_links extra_graph). link_id l \<noteq> 99"
    by (simp add: extra_graph_def workflow_links_def)
  have same: "extra_graph\<lparr>nodes := Some ([loader_node] @
                encoder_node_extra\<lparr>node_inputs := Some ([?clip] @ [])\<rparr> # [])\<rparr> = example_graph"
    by (simp add: extra_graph_def encoder_node_extra_def example_graph_def encoder_node_def)
  from unresolved_link_is_skipped [OF n i l f]
  have "convert_workflow_to_api extra_graph = Inr example_api"
    by (simp only: same example_graph_converted)
  moreover have "map_of (inputs encoder_api_node) (input_name extra_input) = None"
    by (simp add: encoder_api_node_def extra_input_def)
  moreover from l f have "\<not> link_resolves extra_graph extra_input"
    by (rule no_entry_not_resolved)
  ultimately show ?thesis using n i l by simp
qed

text \<open>
  The claim as first stated, that the execution node has no entry under the name of the
  skipped input, fails when the widget value fills that name: the input \<open>text\<close> with the
  unresolved link 99 is skipped and the execution node has \<open>text = "hello"\<close>.
\<close>

theorem unresolved_link_entry_counterexample:
  "node_inputs text_dangling_node = Some [dangling_input]
   \<and> input_link dangling_input = LinkId 99
   \<and> \<not> link_resolves dangling_graph dangling_input
   \<and> convert_workflow_to_api dangling_graph =
       Inr [(''12'', \<lparr>class_type = ''CheckpointLoaderSimple'', inputs = [], meta_title = None\<rparr>),
            (''6'', \<lparr>class_type = ''CLIPTextEncode'',
                     inputs = [(input_name dangling_input, Literal (WStr ''hello''))],
                     meta_title = None\<rparr>)]"
  by (simp add: dangling_graph_converted)
     (simp add: text_dangling_node_def dangling_input_def link_resolves_def dangling_graph_def
        workflow_links_def)



section \<open>The prompt injection: lemmas and claim\<close>

text \<open>
  The loop of convert-workflow.py and the loop of generate-images-working.py change the
  first node they look for and nothing else.
\<close>

lemma update_positive_prompt_first:
  assumes "\<forall>(k, n) \<in> set pre. \<not> positive_text_node n" and "positive_text_node node"
  shows "update_positive_prompt (pre @ (nid, node) # post) =
           pre @ (nid, node\<lparr>inputs := AList.update ''text''
                     (Literal (WStr ''a beautiful test landscape'')) (inputs node)\<rparr>) # post"
  using assms
proof (induction pre)
  case Nil
  then show ?case by (simp add: positive_text_node_def)
next
  case (Cons p pre)
  obtain k n where p: "p = (k, n)" by (cases p)
  from Cons.prems(1) p have "\<not> positive_text_node n" by simp
  moreover from Cons.prems have "update_positive_prompt (pre @ (nid, node) # post) =
           pre @ (nid, node\<lparr>inputs := AList.update ''text''
                     (Literal (WStr ''a beautiful test landscape'')) (inputs node)\<rparr>) # post"
    by (intro Cons.IH) simp_all
  ultimately show ?case by (simp add: p positive_text_node_def)
qed

text \<open>
  On the titles \<open>CLIP Text Encode (Negative)\<close>, \<open>CLIP Text Encode (Positive)\<close>, in that
  order, the loop of convert-workflow.py overwrites the input \<open>text\<close> of the second node only.
\<close>

lemma negative_then_positive_api:
  "update_positive_prompt [(''7'', negative_api_node), (''6'', encoder_api_node)] =
     [(''7'', negative_api_node),
      (''6'', encoder_api_node\<lparr>inputs :=
                [(''text'', Literal (WStr ''a beautiful test landscape'')),
                 (''clip'', Reference ''12'' 0)]\<rparr>)]"
proof -
  have n: "\<forall>(k, n) \<in> set [(''7'', negative_api_node)]. \<not> positive_text_node n"
    by (simp add: positive_text_node_def negative_api_node_def api_title_def lower_def
          lower_char_def)
  have p: "positive_text_node encoder_api_node"
    by (simp add: positive_text_node_def encoder_api_node_def api_title_def lower_def
          lower_char_def)
  from update_positive_prompt_first [OF n p, of "''6''" "[]"] show ?thesis
    by (simp add: encoder_api_node_def)
qed

lemma inject_prompt_working_skip:
  "\<not> positive_widget_node n \<Longrightarrow>
   inject_prompt_working prompt_text (n # rest) = n # inject_prompt_working prompt_text rest"
  by (auto simp: positive_widget_node_def)

lemma inject_prompt_working_hit:
  "positive_widget_node n \<Longrightarrow>
   inject_prompt_working prompt_text (n # rest) =
     n\<lparr>widgets_values := Some [WStr prompt_text]\<rparr> # rest"
  by (auto simp: positive_widget_node_def)

lemma inject_prompt_working_first:
  assumes "\<forall>n \<in> set pre. \<not> positive_widget_node n" and "positive_widget_node node"
  shows "inject_prompt_working prompt_text (pre @ node # post) =
           pre @ node\<lparr>widgets_values := Some [WStr prompt_text]\<rparr> # post"
  using assms
proof (induction pre)
  case Nil
  then show ?case by (simp add: inject_prompt_working_hit del: inject_prompt_working.simps)
next
  case (Cons n pre)
  from Cons.prems(1) have n: "\<not> positive_widget_node n" by simp
  from Cons.prems have "inject_prompt_working prompt_text (pre @ node # post) =
           pre @ node\<lparr>widgets_values := Some [WStr prompt_text]\<rparr> # post"
    by (intro Cons.IH) simp_all
  with n show ?case by (simp add: inject_prompt_working_skip del: inject_prompt_working.simps)
qed

text \<open>The loop of generate-images-local.py changes every node it looks for.\<close>

lemma inject_prompt_local_skip:
  "\<not> positive_widget_node n \<Longrightarrow>
   inject_prompt_local prompt_text (n # rest) = n # inject_prompt_local prompt_text rest"
  by (auto simp: positive_widget_node_def)

lemma inject_prompt_local_hit:
  "positive_widget_node n \<Longrightarrow>
   inject_prompt_local prompt_text (n # rest) =
     n\<lparr>widgets_values := Some [WStr prompt_text]\<rparr> # inject_prompt_local prompt_text rest"
  by (auto simp: positive_widget_node_def)

lemma inject_prompt_local_all:
  "inject_prompt_local prompt_text ns =
     map (\<lambda>n. if positive_widget_node n then n\<lparr>widgets_values := Some [WStr prompt_text]\<rparr> else n) ns"
proof (induction ns)
  case Nil
  show ?case by simp
next
  case (Cons n ns)
  then show ?case
    by (cases "positive_widget_node n")
       (simp_all add: inject_prompt_local_skip inject_prompt_local_hit del: inject_prompt_local.simps)
qed

lemma negative_encoder_not_positive: "\<not> positive_widget_node negative_encoder"
  by (simp add: positive_widget_node_def negative_encoder_def editor_title_def lower_def
        lower_char_def)

lemma positive_encoder_positive: "positive_widget_node positive_encoder"
  by (simp add: positive_widget_node_def positive_encoder_def editor_title_def lower_def
        lower_char_def)

lemma untitled_encoder_positive: "positive_widget_node untitled_encoder"
  by (simp add: positive_widget_node_def untitled_encoder_def editor_title_def lower_def)

text \<open>
  On the titles \<open>CLIP Text Encode (Negative)\<close>, \<open>CLIP Text Encode (Positive)\<close>, in that
  order, both generators change the second node only.
\<close>

lemma negative_then_positive_working:
  "inject_prompt_working ''a cat'' [negative_encoder, positive_encoder] =
     [negative_encoder, positive_encoder\<lparr>widgets_values := Some [WStr ''a cat'']\<rparr>]"
  using inject_prompt_working_first [of "[negative_encoder]" positive_encoder "''a cat''" "[]"]
  by (simp add: negative_encoder_not_positive positive_encoder_positive)

lemma negative_then_positive_local:
  "inject_prompt_local ''a cat'' [negative_encoder, positive_encoder] =
     [negative_encoder, positive_encoder\<lparr>widgets_values := Some [WStr ''a cat'']\<rparr>]"
  by (simp add: inject_prompt_local_all negative_encoder_not_positive positive_encoder_positive)

lemma two_positive_working:
  "inject_prompt_working ''a cat'' [negative_encoder, positive_encoder, untitled_encoder] =
     [negative_encoder, positive_encoder\<lparr>widgets_values := Some [WStr ''a cat'']\<rparr>,
      untitled_encoder]"
  using inject_prompt_working_first [of "[negative_encoder]" positive_encoder "''a cat''"
          "[untitled_encoder]"]
  by (simp add: negative_encoder_not_positive positive_encoder_positive)

text \<open>
  Claim C2. The selector is to pick exactly the first text-encoding node whose title does
  not contain \<open>negative\<close>, and only that node is to be overwritten. The loop of
  generate-images-local.py does not stop at the first such node: with a negative node, a
  positive node and an untitled text-encoding node, in that order, it overwrites the
  widget values of both the second and the third node.
\<close>

theorem local_injection_overwrites_every_positive_node:
  "inject_prompt_local ''a cat'' [negative_encoder, positive_encoder, untitled_encoder] =
     [negative_encoder, positive_encoder\<lparr>widgets_values := Some [WStr ''a cat'']\<rparr>,
      untitled_encoder\<lparr>widgets_values := Some [WStr ''a cat'']\<rparr>]"
  by (simp add: inject_prompt_local_all negative_encoder_not_positive positive_encoder_positive
        untitled_encoder_positive)

section \<open>The prompt parser: evaluation and claim\<close>

lemmas parse_defs = match_episode_def match_scene_def isdigit_def

lemma two_episodes_matches:
  "findall_episodes two_episodes = [''1'', ''2'']"
  "findall_scenes two_episodes = [(''1'', ''a cat''), (''2'', ''a dog'')]"
  by (simp_all add: two_episodes_def parse_defs)

lemma one_episode_matches:
  "findall_episodes one_episode = [''3'']"
  "findall_scenes one_episode =
     [(''1'', [CHR '' '', CHR '' ''] @ ''a cat ''), (''2'', ''a dog'')]"
  by (simp_all add: one_episode_def parse_defs)

text \<open>
  Two scenes under the single heading of episode 3: both records have episode 3, the scene
  numbers of their headings, and the stripped content of their fenced blocks.
\<close>

lemma parser_single_episode:
  "parse_broll_prompts one_episode =
     [\<lparr>episode = 3, scene = 1, prompt = ''a cat''\<rparr>,
      \<lparr>episode = 3, scene = 2, prompt = ''a dog''\<rparr>]"
  by (simp add: parse_broll_prompts_def one_episode_matches int_of_str_def digit_val_def
        strip_def isspace_def)

text \<open>
  Claim C3. Each record is to carry the number of the episode heading that precedes its
  scene. The parser takes the last episode heading of the whole document for every scene:
  for scene 1 under the heading of episode 1, followed by scene 2 under the heading of
  episode 2, both records have episode 2.
\<close>

theorem parser_uses_last_episode_heading:
  "parse_broll_prompts two_episodes =
     [\<lparr>episode = 2, scene = 1, prompt = ''a cat''\<rparr>,
      \<lparr>episode = 2, scene = 2, prompt = ''a dog''\<rparr>]"
  by (simp add: parse_broll_prompts_def two_episodes_matches int_of_str_def digit_val_def
        strip_def isspace_def)

section \<open>Submission and polling: lemmas and claims\<close>

lemma poll_loop_no_outputs:
  "\<forall>k < n. \<exists>r. get_history env (i + k) pid = Returned r \<and> no_outputs pid r \<Longrightarrow>
   poll_loop env pid i n out = timeout_outcome out (i + n)"
proof (induction n arbitrary: i)
  case 0
  show ?case by simp
next
  case (Suc n)
  from Suc.prems have "\<exists>r. get_history env (i + 0) pid = Returned r \<and> no_outputs pid r"
    by blast
  then obtain r where r: "get_history env i pid = Returned r" and no: "no_outputs pid r"
    by auto
  have "\<forall>k < n. \<exists>r. get_history env (Suc i + k) pid = Returned r \<and> no_outputs pid r"
  proof (intro allI impI)
    fix k assume "k < n"
    then have "Suc k < Suc n" by simp
    with Suc.prems have "\<exists>r. get_history env (i + Suc k) pid = Returned r \<and> no_outputs pid r"
      by blast
    then show "\<exists>r. get_history env (Suc i + k) pid = Returned r \<and> no_outputs pid r" by simp
  qed
  then have rest: "poll_loop env pid (Suc i) n out = timeout_outcome out (Suc i + n)"
    by (rule Suc.IH)
  from no have "poll_loop env pid i (Suc n) out = poll_loop env pid (Suc i) n out"
    by (auto simp: r no_outputs_def split: attempt.splits option.splits)
  with rest show ?case by simp
qed

lemma example_graph_messages:
  "inject_messages example_graph = [UpdatedPrompt ''clip text encode (positive)'']"
  by (simp add: inject_messages_def example_graph_def loader_node_def encoder_node_def
        editor_title_def lower_def lower_char_def)

lemma silent_env_outcome:
  "generate_image silent_env p =
     \<lparr>returned = False,
      printed = [UpdatedPrompt ''clip text encode (positive)'', Submitting,
                 Submitted (Some ''job-1''), Timeout],
      polls = 60, copied = None\<rparr>"
proof -
  have "\<forall>k < 60. \<exists>r. get_history silent_env (0 + k) (Some ''job-1'') = Returned r
          \<and> no_outputs (Some ''job-1'') r"
    by (simp add: silent_env_def no_outputs_def lookup_history_def)
  then have "poll_loop silent_env (Some ''job-1'') 0 60
               [UpdatedPrompt ''clip text encode (positive)'', Submitting, Submitted (Some ''job-1'')]
             = timeout_outcome
               [UpdatedPrompt ''clip text encode (positive)'', Submitting, Submitted (Some ''job-1'')]
               (0 + 60)"
    by (rule poll_loop_no_outputs)
  moreover have "load_workflow silent_env = Returned example_graph"
    "post_prompt silent_env (inject_workflow p example_graph) =
       Returned \<lparr>status_code = 200, response_text = ''queued'',
                 json_prompt_id = Returned (Some ''job-1'')\<rparr>"
    by (simp_all add: silent_env_def)
  ultimately show ?thesis
    by (simp add: generate_image_def Let_def example_graph_messages timeout_outcome_def)
qed

lemma rejecting_env_outcome:
  "generate_image (rejecting_env body) p =
     \<lparr>returned = False,
      printed = [UpdatedPrompt ''clip text encode (positive)'', Submitting,
                 FailedToSubmit 500 body],
      polls = 0, copied = None\<rparr>"
  by (simp add: generate_image_def Let_def rejecting_env_def example_graph_messages)

text \<open>
  Claim C4, as amended. When the submission is accepted and none of the 60 history
  answers reports non-empty outputs for the job, \<open>generate_image\<close> makes exactly 60
  history requests, copies nothing, prints the time-out line last and returns
  \<open>False\<close>. This is the value it returns for a rejected submission as well; the two
  runs differ in the lines printed and in the requests made, not in the value returned.
\<close>

theorem polling_without_outputs_times_out:
  assumes "load_workflow env = Returned wkf"
    and "post_prompt env (inject_workflow prompt_text wkf) = Returned response"
    and "status_code response = 200"
    and "json_prompt_id response = Returned pid"
    and "\<forall>i < 60. \<exists>r. get_history env i pid = Returned r \<and> no_outputs pid r"
  shows "generate_image env prompt_text =
           \<lparr>returned = False,
            printed = inject_messages wkf @ [Submitting, Submitted pid, Timeout],
            polls = 60,
            copied = None\<rparr>"
proof -
  from assms(5) have "\<forall>k < 60. \<exists>r. get_history env (0 + k) pid = Returned r \<and> no_outputs pid r"
    by simp
  then have "poll_loop env pid 0 60 (inject_messages wkf @ [Submitting, Submitted pid]) =
               timeout_outcome (inject_messages wkf @ [Submitting, Submitted pid]) (0 + 60)"
    by (rule poll_loop_no_outputs)
  with assms(1-4) show ?thesis
    by (simp add: generate_image_def timeout_outcome_def Let_def)
qed

theorem polling_without_outputs_times_out_witness:
  "load_workflow silent_env = Returned example_graph
   \<and> generate_image silent_env ''a cat'' =
       \<lparr>returned = False,
        printed = [UpdatedPrompt ''clip text encode (positive)'', Submitting,
                   Submitted (Some ''job-1''), Timeout],
        polls = 60, copied = None\<rparr>"
proof -
  let ?response = "\<lparr>status_code = 200, response_text = ''queued'',
                    json_prompt_id = Returned (Some ''job-1'')\<rparr>"
  have l: "load_workflow silent_env = Returned example_graph" by (simp add: silent_env_def)
  have p: "post_prompt silent_env (inject_workflow ''a cat'' example_graph) = Returned ?response"
    by (simp add: silent_env_def)
  have s: "status_code ?response = 200" by simp
  have j: "json_prompt_id ?response = Returned (Some ''job-1'')" by simp
  have h: "\<forall>i < 60. \<exists>r. get_history silent_env i (Some ''job-1'') = Returned r
                     \<and> no_outputs (Some ''job-1'') r"
    by (simp add: silent_env_def no_outputs_def lookup_history_def)
  from polling_without_outputs_times_out [OF l p s j h]
  have "generate_image silent_env ''a cat'' =
       \<lparr>returned = False,
        printed = [UpdatedPrompt ''clip text encode (positive)'', Submitting,
                   Submitted (Some ''job-1''), Timeout],
        polls = 60, copied = None\<rparr>"
    by (simp add: example_graph_messages)
  with l show ?thesis by (intro conjI)
qed

text \<open>
  The claim as first stated, that the value returned on a time-out differs from the value
  returned on a failed submission, fails: both runs return \<open>False\<close>.
\<close>

theorem timeout_and_failure_return_the_same_counterexample:
  "returned (generate_image silent_env ''a cat'')
     = returned (generate_image (rejecting_env ''server error'') ''a cat'')"
  by (simp add: silent_env_outcome rejecting_env_outcome)

text \<open>
  Claim C5, as amended. When the answer to the submission has a status other than 200,
  \<open>generate_image\<close> prints a line with the status and the response body as they are,
  makes no history request, copies nothing and returns \<open>False\<close>; the value returned
  holds nothing of the body.
\<close>

theorem rejected_submission_is_printed:
  assumes "load_workflow env = Returned wkf"
    and "post_prompt env (inject_workflow prompt_text wkf) = Returned response"
    and "status_code response \<noteq> 200"
  shows "generate_image env prompt_text =
           \<lparr>returned = False,
            printed = inject_messages wkf
                        @ [Submitting, FailedToSubmit (status_code response) (response_text response)],
            polls = 0,
            copied = None\<rparr>"
  using assms by (simp add: generate_image_def Let_def)

theorem rejected_submission_is_printed_witness:
  "load_workflow (rejecting_env ''server error'') = Returned example_graph
   \<and> generate_image (rejecting_env ''server error'') ''a cat'' =
       \<lparr>returned = False,
        printed = [UpdatedPrompt ''clip text encode (positive)'', Submitting,
                   FailedToSubmit 500 ''server error''],
        polls = 0, copied = None\<rparr>"
proof -
  let ?response = "\<lparr>status_code = 500, response_text = ''server error'',
                    json_prompt_id = Raised ''JSONDecodeError''\<rparr>"
  have l: "load_workflow (rejecting_env ''server error'') = Returned example_graph"
    by (simp add: rejecting_env_def)
  have p: "post_prompt (rejecting_env ''server error'') (inject_workflow ''a cat'' example_graph)
             = Returned ?response"
    by (simp add: rejecting_env_def)
  have s: "status_code ?response \<noteq> 200" by simp
  from rejected_submission_is_printed [OF l p s]
  have "generate_image (rejecting_env ''server error'') ''a cat'' =
       \<lparr>returned = False,
        printed = [UpdatedPrompt ''clip text encode (positive)'', Submitting,
                   FailedToSubmit 500 ''server error''],
        polls = 0, copied = None\<rparr>"
    by (simp add: example_graph_messages)
  with l show ?thesis by (intro conjI)
qed

text \<open>
  The claim as first stated, that the result returned carries the response body, fails:
  two rejections with different bodies return the same value.
\<close>

theorem return_value_carries_no_body_counterexample:
  "returned (generate_image (rejecting_env ''out of memory'') ''a cat'')
     = returned (generate_image (rejecting_env ''invalid prompt'') ''a cat'')"
  by (simp add: rejecting_env_outcome)

end
